theory Spec2Isabelle
  imports Complex_Main
begin

section \<open>JavaScript values as the dashboard code sees them\<close>

text \<open>
  The sources (\<^verbatim>\<open>js/mapa.js\<close>, \<^verbatim>\<open>js/personal.js\<close>, \<^verbatim>\<open>js/alertas.js\<close>) compute with
  JavaScript numbers, strings, dates and Firestore documents. A number is either
  \<open>NaN\<close>, one of the two infinities, or a finite value. Finite values are modelled as
  exact reals: the rounding of IEEE doubles and the sign of zero are not part of the
  model. The comparison and arithmetic operators follow ECMAScript on that domain.
\<close>

datatype jsnum = NaN | NegInf | Fin real | PosInf

datatype js_error = TypeError

fun js_isNaN :: "jsnum \<Rightarrow> bool" where
  "js_isNaN NaN = True"
| "js_isNaN _ = False"

fun js_isFinite :: "jsnum \<Rightarrow> bool" where
  "js_isFinite (Fin _) = True"
| "js_isFinite _ = False"

text \<open>\<open>a < b\<close>: false as soon as one operand is \<open>NaN\<close>.\<close>

fun js_lt :: "jsnum \<Rightarrow> jsnum \<Rightarrow> bool" where
  "js_lt NaN _ = False"
| "js_lt _ NaN = False"
| "js_lt (Fin a) (Fin b) = (a < b)"
| "js_lt NegInf NegInf = False"
| "js_lt NegInf _ = True"
| "js_lt _ NegInf = False"
| "js_lt PosInf _ = False"
| "js_lt _ PosInf = True"

definition js_gt :: "jsnum \<Rightarrow> jsnum \<Rightarrow> bool" where
  "js_gt a b = js_lt b a"

text \<open>\<open>a <= b\<close> is \<open>a < b || a == b\<close> on numbers, and \<open>a >= b\<close> its mirror image.\<close>

definition js_le :: "jsnum \<Rightarrow> jsnum \<Rightarrow> bool" where
  "js_le a b = (\<not> js_isNaN a \<and> \<not> js_isNaN b \<and> (js_lt a b \<or> a = b))"

definition js_ge :: "jsnum \<Rightarrow> jsnum \<Rightarrow> bool" where
  "js_ge a b = js_le b a"

text \<open>\<open>a !== b\<close> on numbers: \<open>NaN\<close> differs from everything, itself included.\<close>

definition js_neq :: "jsnum \<Rightarrow> jsnum \<Rightarrow> bool" where
  "js_neq a b = (js_isNaN a \<or> js_isNaN b \<or> a \<noteq> b)"

fun js_neg :: "jsnum \<Rightarrow> jsnum" where
  "js_neg NaN = NaN"
| "js_neg NegInf = PosInf"
| "js_neg PosInf = NegInf"
| "js_neg (Fin a) = Fin (- a)"

fun js_add :: "jsnum \<Rightarrow> jsnum \<Rightarrow> jsnum" where
  "js_add NaN _ = NaN"
| "js_add _ NaN = NaN"
| "js_add (Fin a) (Fin b) = Fin (a + b)"
| "js_add PosInf NegInf = NaN"
| "js_add NegInf PosInf = NaN"
| "js_add PosInf _ = PosInf"
| "js_add _ PosInf = PosInf"
| "js_add NegInf _ = NegInf"
| "js_add _ NegInf = NegInf"

definition js_sub :: "jsnum \<Rightarrow> jsnum \<Rightarrow> jsnum" where
  "js_sub a b = js_add a (js_neg b)"

text \<open>The sign of a non-\<open>NaN\<close> number, as an integer; zero has sign 0.\<close>

fun js_sign :: "jsnum \<Rightarrow> int" where
  "js_sign NaN = 0"
| "js_sign NegInf = - 1"
| "js_sign PosInf = 1"
| "js_sign (Fin a) = (if a < 0 then - 1 else if a = 0 then 0 else 1)"

definition inf_of_sign :: "int \<Rightarrow> jsnum" where
  "inf_of_sign s = (if s < 0 then NegInf else if s = 0 then NaN else PosInf)"

fun js_mul :: "jsnum \<Rightarrow> jsnum \<Rightarrow> jsnum" where
  "js_mul NaN _ = NaN"
| "js_mul _ NaN = NaN"
| "js_mul (Fin a) (Fin b) = Fin (a * b)"
| "js_mul a b = inf_of_sign (js_sign a * js_sign b)"

text \<open>
  Division. A finite non-zero value divided by zero is an infinity whose sign depends
  on the sign of the zero; the model has one zero and takes it as positive. The only
  division of the sources (\<open>pointInRing\<close>) is guarded so that its divisor is not zero.
\<close>

fun js_div :: "jsnum \<Rightarrow> jsnum \<Rightarrow> jsnum" where
  "js_div NaN _ = NaN"
| "js_div _ NaN = NaN"
| "js_div (Fin a) (Fin b) = (if b = 0 then inf_of_sign (js_sign (Fin a)) else Fin (a / b))"
| "js_div (Fin a) _ = Fin 0"
| "js_div a (Fin b) = inf_of_sign (js_sign a * (if b < 0 then - 1 else 1))"
| "js_div _ _ = NaN"

fun js_abs :: "jsnum \<Rightarrow> jsnum" where
  "js_abs NaN = NaN"
| "js_abs NegInf = PosInf"
| "js_abs PosInf = PosInf"
| "js_abs (Fin a) = Fin \<bar>a\<bar>"

text \<open>\<open>Math.min\<close> and \<open>Math.max\<close> of two numbers: \<open>NaN\<close> is contagious.\<close>

definition js_min :: "jsnum \<Rightarrow> jsnum \<Rightarrow> jsnum" where
  "js_min a b = (if js_isNaN a \<or> js_isNaN b then NaN else if js_lt b a then b else a)"

definition js_max :: "jsnum \<Rightarrow> jsnum \<Rightarrow> jsnum" where
  "js_max a b = (if js_isNaN a \<or> js_isNaN b then NaN else if js_lt a b then b else a)"

subsection \<open>Strings: white space, digits, \<open>parseFloat\<close>\<close>

text \<open>
  A string is a list of characters standing for code units below 256. White space is
  what \<open>parseFloat\<close> and \<open>trim\<close> skip among them: TAB, LF, VT, FF, CR, SP and NBSP.
\<close>

definition isWhiteSpace :: "char \<Rightarrow> bool" where
  "isWhiteSpace c = (c \<in> set [CHR 0x09, CHR 0x0A, CHR 0x0B, CHR 0x0C, CHR 0x0D, CHR 0x20, CHR 0xA0])"

definition isDigit :: "char \<Rightarrow> bool" where
  "isDigit c = (c \<in> set ''0123456789'')"

definition digitVal :: "char \<Rightarrow> nat" where
  "digitVal c = of_char c - 48"

definition digitsVal :: "string \<Rightarrow> nat" where
  "digitsVal ds = foldl (\<lambda>a c. 10 * a + digitVal c) 0 ds"

text \<open>\<open>s.replace(",", ".")\<close> with a string pattern replaces the first occurrence only.\<close>

fun replaceFirst :: "char \<Rightarrow> char \<Rightarrow> string \<Rightarrow> string" where
  "replaceFirst a b [] = []"
| "replaceFirst a b (c # cs) = (if c = a then b # cs else c # replaceFirst a b cs)"

text \<open>
  Scanning an \<open>ExponentPart\<close> (\<open>e\<close> or \<open>E\<close>, an optional sign, at least one digit) at
  the head of a string: its value and the rest of the string; without one, 0 and the
  string itself.
\<close>

definition scanExponent :: "string \<Rightarrow> int \<times> string" where
  "scanExponent r =
     (case r of
        [] \<Rightarrow> (0, r)
      | e # r1 \<Rightarrow>
          if e = CHR ''e'' \<or> e = CHR ''E'' then
            (case r1 of
               [] \<Rightarrow> (0, r)
             | s # r2 \<Rightarrow>
                 if s = CHR ''+'' \<or> s = CHR ''-'' then
                   (if takeWhile isDigit r2 = [] then (0, r)
                    else ((if s = CHR ''-'' then - 1 else 1) * int (digitsVal (takeWhile isDigit r2)),
                          dropWhile isDigit r2))
                 else if takeWhile isDigit r1 = [] then (0, r)
                 else (int (digitsVal (takeWhile isDigit r1)), dropWhile isDigit r1))
          else (0, r))"

text \<open>
  The longest prefix that is a \<open>StrUnsignedDecimalLiteral\<close>: \<open>Infinity\<close>, digits with an
  optional fraction and exponent, or a fraction starting with the dot. The result is its
  value and the rest of the string; no such prefix gives \<open>NaN\<close>.
\<close>

definition scanUnsigned :: "string \<Rightarrow> jsnum \<times> string" where
  "scanUnsigned r =
     (if take 8 r = ''Infinity'' then (PosInf, drop 8 r)
      else
        let ip = takeWhile isDigit r;
            r1 = dropWhile isDigit r;
            hasDot = (r1 \<noteq> [] \<and> hd r1 = CHR ''.'');
            fp = (if hasDot then takeWhile isDigit (tl r1) else []);
            r2 = (if hasDot then dropWhile isDigit (tl r1) else r1)
        in if ip = [] \<and> fp = [] then (NaN, r)
           else (Fin ((real (digitsVal ip) + real (digitsVal fp) / 10 ^ length fp)
                      * 10 powi fst (scanExponent r2)),
                 snd (scanExponent r2)))"

definition scanSigned :: "string \<Rightarrow> jsnum \<times> string" where
  "scanSigned s =
     (case s of
        [] \<Rightarrow> (NaN, [])
      | c # r \<Rightarrow>
          if c = CHR ''-'' then (js_neg (fst (scanUnsigned r)), snd (scanUnsigned r))
          else if c = CHR ''+'' then scanUnsigned r
          else scanUnsigned (c # r))"

text \<open>\<open>parseFloat\<close>: skip leading white space, read the longest decimal literal.\<close>

definition parseFloat :: "string \<Rightarrow> jsnum" where
  "parseFloat s = fst (scanSigned (dropWhile isWhiteSpace s))"

text \<open>
  The unary plus on a string (\<open>+n\<close>): white space is trimmed at both ends, the empty
  string is 0, and otherwise the whole string must be a decimal literal or a \<open>0x\<close>,
  \<open>0o\<close> or \<open>0b\<close> integer literal.
\<close>

definition trim :: "string \<Rightarrow> string" where
  "trim s = rev (dropWhile isWhiteSpace (rev (dropWhile isWhiteSpace s)))"

definition baseDigit :: "nat \<Rightarrow> char \<Rightarrow> nat option" where
  "baseDigit b c =
     (let v = (if isDigit c then digitVal c
               else if c \<in> set ''abcdef'' then of_char c - 87
               else if c \<in> set ''ABCDEF'' then of_char c - 55
               else 16)
      in if v < b then Some v else None)"

definition baseVal :: "nat \<Rightarrow> string \<Rightarrow> nat option" where
  "baseVal b ds =
     (if ds = [] \<or> \<not> list_all (\<lambda>c. baseDigit b c \<noteq> None) ds then None
      else Some (foldl (\<lambda>a c. b * a + the (baseDigit b c)) 0 ds))"

definition nonDecimalLiteral :: "string \<Rightarrow> nat option" where
  "nonDecimalLiteral t =
     (case t of
        z # x # ds \<Rightarrow>
          if z \<noteq> CHR ''0'' then None
          else if x = CHR ''x'' \<or> x = CHR ''X'' then baseVal 16 ds
          else if x = CHR ''o'' \<or> x = CHR ''O'' then baseVal 8 ds
          else if x = CHR ''b'' \<or> x = CHR ''B'' then baseVal 2 ds
          else None
      | _ \<Rightarrow> None)"

definition stringToNumber :: "string \<Rightarrow> jsnum" where
  "stringToNumber s =
     (let t = trim s
      in if t = [] then Fin 0
         else case nonDecimalLiteral t of
                Some v \<Rightarrow> Fin (real v)
              | None \<Rightarrow> (if snd (scanSigned t) = [] then fst (scanSigned t) else NaN))"

text \<open>\<open>s.split(/[\/\-]/)\<close> and the like: the pieces between separator characters.\<close>

fun splitOn :: "(char \<Rightarrow> bool) \<Rightarrow> string \<Rightarrow> string list" where
  "splitOn p [] = [[]]"
| "splitOn p (c # cs) =
     (if p c then [] # splitOn p cs
      else (case splitOn p cs of
              [] \<Rightarrow> [[c]]
            | w # ws \<Rightarrow> (c # w) # ws))"

text \<open>Decimal digits of a natural number, as \<open>String(n)\<close> prints an integer below \<open>1e21\<close>.\<close>

definition digitChar :: "nat \<Rightarrow> char" where
  "digitChar n = ''0123456789'' ! n"

fun decimal :: "nat \<Rightarrow> string" where
  "decimal n = (if n < 10 then [digitChar n] else decimal (n div 10) @ [digitChar (n mod 10)])"

subsection \<open>Document fields\<close>

text \<open>
  A field of a Firestore document, or a property of an object literal built from one:
  \<open>undefined\<close> (absent), \<open>null\<close>, a boolean, a number, a string, a native timestamp
  (seconds and nanoseconds; it has the method \<open>toDate\<close>) or a map of fields.
\<close>

datatype jsval =
    JUndefined
  | JNull
  | JBool bool
  | JNum jsnum
  | JStr string
  | JTimestamp int nat
  | JObj "(string \<times> jsval) list"

type_synonym jsobj = "(string \<times> jsval) list"

text \<open>\<open>o.k\<close> on an object: the field, or \<open>undefined\<close>.\<close>

definition field :: "jsobj \<Rightarrow> string \<Rightarrow> jsval" where
  "field obj k = (case map_of obj k of None \<Rightarrow> JUndefined | Some v \<Rightarrow> v)"

definition nullish :: "jsval \<Rightarrow> bool" where
  "nullish v = (v = JUndefined \<or> v = JNull)"

text \<open>\<open>a ?? b\<close>\<close>

definition coalesce :: "jsval \<Rightarrow> jsval \<Rightarrow> jsval" where
  "coalesce a b = (if nullish a then b else a)"

fun truthy :: "jsval \<Rightarrow> bool" where
  "truthy JUndefined = False"
| "truthy JNull = False"
| "truthy (JBool b) = b"
| "truthy (JNum n) = (\<not> js_isNaN n \<and> n \<noteq> Fin 0)"
| "truthy (JStr s) = (s \<noteq> [])"
| "truthy (JTimestamp _ _) = True"
| "truthy (JObj _) = True"

text \<open>
  \<open>String(v)\<close> for a value that is not a number. \<open>toNum\<close> and the timestamp helpers
  test for numbers before they convert, so the number case is never read; it is the
  empty string here.
\<close>

fun stringOf :: "jsval \<Rightarrow> string" where
  "stringOf JUndefined = ''undefined''"
| "stringOf JNull = ''null''"
| "stringOf (JBool b) = (if b then ''true'' else ''false'')"
| "stringOf (JNum _) = []"
| "stringOf (JStr s) = s"
| "stringOf (JTimestamp s n) =
     ''Timestamp(seconds='' @ (if s < 0 then ''-'' else []) @ decimal (nat \<bar>s\<bar>)
       @ '', nanoseconds='' @ decimal n @ '')''"
| "stringOf (JObj _) = ''[object Object]''"

subsection \<open>Coordinates (\<^verbatim>\<open>js/mapa.js\<close>, toNum and getCoords)\<close>

text \<open>
  \<^verbatim>\<open>const toNum = v => (typeof v === "number" ? v : parseFloat(String(v).replace(",", ".")));\<close>
\<close>

fun toNum :: "jsval \<Rightarrow> jsnum" where
  "toNum (JNum n) = n"
| "toNum v = parseFloat (replaceFirst (CHR '','') (CHR ''.'') (stringOf v))"

text \<open>
  \<^verbatim>\<open>
  export const getCoords = (o) => {
    const lat = toNum(o.lat ?? o.latitude ?? o.latitud);
    const lng = toNum(o.lng ?? o.long ?? o.lon ?? o.longitude ?? o.longitud);
    if (Number.isNaN(lat) || Number.isNaN(lng) || lat<-90 || lat>90 || lng<-180 || lng>180) return null;
    return [lat, lng];
  };
  \<close>
  \<open>latOf\<close> and \<open>lngOf\<close> are the two constants \<open>lat\<close> and \<open>lng\<close>.
\<close>

definition latOf :: "jsobj \<Rightarrow> jsnum" where
  "latOf o' = toNum (coalesce (field o' ''lat'') (coalesce (field o' ''latitude'') (field o' ''latitud'')))"

definition lngOf :: "jsobj \<Rightarrow> jsnum" where
  "lngOf o' =
     toNum (coalesce (field o' ''lng'') (coalesce (field o' ''long'')
       (coalesce (field o' ''lon'') (coalesce (field o' ''longitude'') (field o' ''longitud'')))))"

definition getCoords :: "jsobj \<Rightarrow> (jsnum \<times> jsnum) option" where
  "getCoords o' =
     (if js_isNaN (latOf o') \<or> js_isNaN (lngOf o') \<or> js_lt (latOf o') (Fin (- 90)) \<or> js_gt (latOf o') (Fin 90)
         \<or> js_lt (lngOf o') (Fin (- 180)) \<or> js_gt (lngOf o') (Fin 180)
      then None
      else Some (latOf o', lngOf o'))"

subsection \<open>Dates and timestamps (\<^verbatim>\<open>js/mapa.js\<close>, getWhenS and getWhenA)\<close>

text \<open>
  A \<open>Date\<close> is either invalid (its time value is \<open>NaN\<close>) or a number of milliseconds
  since the epoch. \<open>new Date(v)\<close> for a number \<open>v\<close> clips: a value that is not finite or
  beyond \<open>8.64e15\<close> in magnitude gives an invalid date, any other is truncated towards
  zero.
\<close>

datatype jsdate = InvalidDate | DateMs int

definition epoch :: jsdate where
  "epoch = DateMs 0"

definition truncReal :: "real \<Rightarrow> int" where
  "truncReal r = (if r < 0 then \<lceil>r\<rceil> else \<lfloor>r\<rfloor>)"

fun dateOfNumber :: "jsnum \<Rightarrow> jsdate" where
  "dateOfNumber (Fin r) = (if \<bar>r\<bar> \<le> 8640000000000000 then DateMs (truncReal r) else InvalidDate)"
| "dateOfNumber _ = InvalidDate"

text \<open>\<open>date.getTime()\<close>, which is also the number a date compares as.\<close>

fun getTime :: "jsdate \<Rightarrow> jsnum" where
  "getTime InvalidDate = NaN"
| "getTime (DateMs t) = Fin (of_int t)"

text \<open>
  What the host decides and the sources do not: how \<open>new Date(string)\<close> reads a string
  (beyond ISO 8601 this is implementation-defined), which instant \<open>new Date(y, m, d)\<close>
  is for finite arguments (it depends on the time zone), what \<open>v + ""\<close> is for a
  value that is not a string, how \<open>String(n)\<close> prints a number, and what Unicode
  normalisation, the removal of diacritics, trimming and lower-casing make of a string
  (the tail of \<open>norm\<close>).
\<close>

record host =
  dateParse :: "string \<Rightarrow> jsdate"
  localDate :: "real \<Rightarrow> real \<Rightarrow> real \<Rightarrow> jsdate"
  plusEmpty :: "jsval \<Rightarrow> string"
  numberToString :: "jsnum \<Rightarrow> string"
  normText :: "string \<Rightarrow> string"

text \<open>\<open>new Date(y, m, d)\<close>: invalid as soon as one argument is not finite.\<close>

fun newDate3 :: "host \<Rightarrow> jsnum \<Rightarrow> jsnum \<Rightarrow> jsnum \<Rightarrow> jsdate" where
  "newDate3 h (Fin y) (Fin m) (Fin d) = localDate h y m d"
| "newDate3 h _ _ _ = InvalidDate"

text \<open>The date a native timestamp's \<open>toDate()\<close> returns: its milliseconds, clipped.\<close>

definition timestampToDate :: "int \<Rightarrow> nat \<Rightarrow> jsdate" where
  "timestampToDate s n = dateOfNumber (Fin (of_int s * 1000 + of_nat n / 1000000))"

text \<open>\<open>t?.toDate\<close> is truthy: a native timestamp has the method, a map may have a field
  of that name, nothing else has it.\<close>

definition hasToDate :: "jsval \<Rightarrow> bool" where
  "hasToDate t = (case t of JTimestamp _ _ \<Rightarrow> True | JObj kvs \<Rightarrow> truthy (field kvs ''toDate'') | _ \<Rightarrow> False)"

text \<open>\<open>t.toDate()\<close>: document data holds no functions, so calling a map's field throws.\<close>

definition callToDate :: "jsval \<Rightarrow> js_error + jsdate" where
  "callToDate t = (case t of JTimestamp s n \<Rightarrow> Inr (timestampToDate s n) | _ \<Rightarrow> Inl TypeError)"

text \<open>\<open>t?.seconds\<close> when \<open>typeof t?.seconds === "number"\<close>.\<close>

definition secondsOf :: "jsval \<Rightarrow> jsnum option" where
  "secondsOf t =
     (case t of
        JTimestamp s _ \<Rightarrow> Some (Fin (of_int s))
      | JObj kvs \<Rightarrow> (case field kvs ''seconds'' of JNum n \<Rightarrow> Some n | _ \<Rightarrow> None)
      | _ \<Rightarrow> None)"

text \<open>A string that \<open>new Date\<close> reads as a valid date (\<open>!isNaN(dt)\<close>).\<close>

definition parsedString :: "host \<Rightarrow> jsval \<Rightarrow> jsdate option" where
  "parsedString h t =
     (case t of
        JStr s \<Rightarrow> (case dateParse h s of InvalidDate \<Rightarrow> None | DateMs ms \<Rightarrow> Some (DateMs ms))
      | _ \<Rightarrow> None)"

definition nthNum :: "jsnum list \<Rightarrow> nat \<Rightarrow> jsnum" where
  "nthNum xs i = (if i < length xs then xs ! i else NaN)"

text \<open>
  \<^verbatim>\<open>
  const [dd,mm,yy] = (d.fecha+"").split(/[\/\-]/).map(n=>+n);
  return new Date(yy, mm-1, dd);
  \<close>
  A missing piece is \<open>undefined\<close>, which counts as \<open>NaN\<close> in the date.
\<close>

definition dateFromFecha :: "host \<Rightarrow> jsval \<Rightarrow> jsdate" where
  "dateFromFecha h f =
     (let str = (case f of JStr s \<Rightarrow> s | _ \<Rightarrow> plusEmpty h f);
          parts = map stringToNumber (splitOn (\<lambda>c. c = CHR ''/'' \<or> c = CHR ''-'') str)
      in newDate3 h (nthNum parts 2) (js_sub (nthNum parts 1) (Fin 1)) (nthNum parts 0))"

text \<open>
  \<^verbatim>\<open>
  export const getWhenS = (d) => {
    const t = d.timestamp;
    if (t?.toDate)                return t.toDate();
    if (typeof t?.seconds==="number") return new Date(t.seconds*1000);
    if (typeof t === "string") {
      const dt = new Date(t); if (!isNaN(dt)) return dt;
    }
    if (d.fecha) { // dd/mm/yyyy o dd-mm-yyyy
      const [dd,mm,yy] = (d.fecha+"").split(/[\/\-]/).map(n=>+n);
      return new Date(yy, mm-1, dd);
    }
    return new Date(0);
  };
  \<close>
\<close>

definition getWhenS :: "host \<Rightarrow> jsobj \<Rightarrow> js_error + jsdate" where
  "getWhenS h d =
     (let t = field d ''timestamp''
      in if hasToDate t then callToDate t
         else case secondsOf t of
                Some n \<Rightarrow> Inr (dateOfNumber (js_mul n (Fin 1000)))
              | None \<Rightarrow>
                  (case parsedString h t of
                     Some dt \<Rightarrow> Inr dt
                   | None \<Rightarrow>
                       if truthy (field d ''fecha'') then Inr (dateFromFecha h (field d ''fecha''))
                       else Inr epoch))"

text \<open>
  \<^verbatim>\<open>
  export const getWhenA = (d) => {
    const ct = d?.createdAt;
    if (ct?.toDate)                return ct.toDate();
    if (typeof ct?.seconds==="number") return new Date(ct.seconds*1000);
    if (typeof ct === "number")    return new Date(ct);
    if (typeof ct === "string") {
      const x = new Date(ct); if (!isNaN(x)) return x;
    }
    return new Date(0);
  };
  \<close>
\<close>

definition getWhenA :: "host \<Rightarrow> jsobj \<Rightarrow> js_error + jsdate" where
  "getWhenA h d =
     (let ct = field d ''createdAt''
      in if hasToDate ct then callToDate ct
         else case secondsOf ct of
                Some n \<Rightarrow> Inr (dateOfNumber (js_mul n (Fin 1000)))
              | None \<Rightarrow>
                  (case ct of
                     JNum n \<Rightarrow> Inr (dateOfNumber n)
                   | _ \<Rightarrow> (case parsedString h ct of Some x \<Rightarrow> Inr x | None \<Rightarrow> Inr epoch)))"

section \<open>Geofences (\<^verbatim>\<open>js/mapa.js\<close>)\<close>

text \<open>
  A \<open>Map\<close> keeps its keys in insertion order: \<open>set\<close> on a present key replaces the value
  where it stands, on a new key it appends.
\<close>

fun mapSet :: "'k \<Rightarrow> 'v \<Rightarrow> ('k \<times> 'v) list \<Rightarrow> ('k \<times> 'v) list" where
  "mapSet k v [] = [(k, v)]"
| "mapSet k v ((k', v') # rest) = (if k' = k then (k, v) # rest else (k', v') # mapSet k v rest)"

text \<open>
  A point is a pair (latitude, longitude). A geofence as the snapshot handler stores it
  in \<open>geofenceById\<close>: \<open>{ id, nombre, color, path }\<close>, to which \<open>drawOneGeofence\<close>
  adds \<open>_color\<close> (here \<open>ucolor\<close>). An absent or empty string is \<open>[]\<close>; both are falsy
  and the code only ever tests these fields with \<open>||\<close>. The stored objects have no
  property \<open>name\<close> (the handler folds the document's \<open>name\<close> into \<open>nombre\<close>), so
  \<open>g.nombre || g.name\<close> is \<open>g.nombre\<close>. The path is the array of the document; a path
  that is not an array counts as the empty one (\<open>Array.isArray(arr) ? arr : []\<close>).
\<close>

type_synonym latlng = "jsnum \<times> jsnum"

record geofence =
  gid :: string
  nombre :: string
  color :: string
  path :: "jsval list"
  ucolor :: string

text \<open>
  \<^verbatim>\<open>
  const parsePath = (arr) => (Array.isArray(arr) ? arr : [])
    .map(p => [toNum(p.lat), toNum(p.lng)])
    .filter(([a,b]) => !Number.isNaN(a) && !Number.isNaN(b));
  \<close>
  Reading \<open>p.lat\<close> throws when the element is \<open>null\<close> or \<open>undefined\<close>.
\<close>

definition getProp :: "jsval \<Rightarrow> string \<Rightarrow> jsval" where
  "getProp p k = (case p of JObj kvs \<Rightarrow> field kvs k | _ \<Rightarrow> JUndefined)"

fun parsePoints :: "jsval list \<Rightarrow> js_error + latlng list" where
  "parsePoints [] = Inr []"
| "parsePoints (p # ps) =
     (if nullish p then Inl TypeError
      else case parsePoints ps of
             Inl e \<Rightarrow> Inl e
           | Inr r \<Rightarrow> Inr ((toNum (getProp p ''lat''), toNum (getProp p ''lng'')) # r))"

definition parsePath :: "jsval list \<Rightarrow> js_error + latlng list" where
  "parsePath arr =
     (case parsePoints arr of
        Inl e \<Rightarrow> Inl e
      | Inr pts \<Rightarrow> Inr (filter (\<lambda>(a, b). \<not> js_isNaN a \<and> \<not> js_isNaN b) pts))"

definition defaultColors :: "string list" where
  "defaultColors = [''#ef4444'', ''#f59e0b'', ''#10b981'', ''#3b82f6'', ''#8b5cf6'', ''#ec4899'', ''#22c55e'']"

subsection \<open>The polygon layer of the map library\<close>

text \<open>
  The map library (Leaflet) is not part of the repository. The code uses three things
  of a polygon layer: the array it hands to \<open>L.polygon\<close> or \<open>setLatLngs\<close> (\<open>shape\<close>), and
  what \<open>getLatLngs()\<close> and \<open>getBounds()\<close> return. The statements about point location
  below hold for every polygon value. \<open>L_polygon\<close> is the library's constructor as its
  documentation and the specification describe it: the ring is stored without a closing
  vertex that repeats the first one (equal within \<open>1e-9\<close> in both coordinates), nested
  in a list of rings, and the bounds are the axis-aligned box of the points given.
  Bounds include their border. The library refuses a point with a \<open>NaN\<close> coordinate;
  \<open>parsePath\<close> and \<open>getCoords\<close> let none through, and the model does not describe
  that refusal.
\<close>

record bbox =
  south :: jsnum
  west :: jsnum
  north :: jsnum
  east :: jsnum

datatype latlngs = Flat "latlng list" | Nested "latlng list list"

record polygon =
  shape :: "latlng list"
  stroke :: string
  getLatLngs :: latlngs
  getBounds :: bbox

definition contains :: "bbox \<Rightarrow> latlng \<Rightarrow> bool" where
  "contains b p =
     (js_ge (fst p) (south b) \<and> js_le (fst p) (north b) \<and> js_ge (snd p) (west b) \<and> js_le (snd p) (east b))"

definition extendBounds :: "bbox \<Rightarrow> latlng \<Rightarrow> bbox" where
  "extendBounds b p =
     \<lparr>south = js_min (fst p) (south b), west = js_min (snd p) (west b),
      north = js_max (fst p) (north b), east = js_max (snd p) (east b)\<rparr>"

definition boundsOf :: "latlng list \<Rightarrow> bbox" where
  "boundsOf ps =
     (case ps of
        [] \<Rightarrow> \<lparr>south = NaN, west = NaN, north = NaN, east = NaN\<rparr>
      | p # rest \<Rightarrow> foldl extendBounds \<lparr>south = fst p, west = snd p, north = fst p, east = snd p\<rparr> rest)"

definition llEquals :: "latlng \<Rightarrow> latlng \<Rightarrow> bool" where
  "llEquals a b =
     js_le (js_max (js_abs (js_sub (fst a) (fst b))) (js_abs (js_sub (snd a) (snd b)))) (Fin (1 / 10 ^ 9))"

definition dropClosing :: "latlng list \<Rightarrow> latlng list" where
  "dropClosing ps = (if length ps \<ge> 2 \<and> llEquals (hd ps) (last ps) then butlast ps else ps)"

definition L_polygon :: "latlng list \<Rightarrow> string \<Rightarrow> polygon" where
  "L_polygon ps c =
     \<lparr>shape = ps, stroke = c, getLatLngs = Nested [dropClosing ps], getBounds = boundsOf ps\<rparr>"

subsection \<open>Drawing a geofence\<close>

text \<open>
  \<^verbatim>\<open>
  const closed = (path.length > 2 && (path[0][0] !== path[path.length-1][0]
                                   || path[0][1] !== path[path.length-1][1]))
    ? [...path, path[0]]
    : path;
  \<close>
\<close>

definition closePath :: "latlng list \<Rightarrow> latlng list" where
  "closePath pth =
     (if length pth > 2
         \<and> (js_neq (fst (hd pth)) (fst (last pth)) \<or> js_neq (snd (hd pth)) (snd (last pth)))
      then pth @ [hd pth]
      else pth)"

text \<open>
  \<^verbatim>\<open>
  function drawOneGeofence(g, idx) {
    const id   = g.id;
    const path = parsePath(g.path || []);
    if (!path.length) return;
    const color = g.color || defaultColors[idx % defaultColors.length];
    g._color = color;
    const closed = ...;
    let poly = geofenceLayers.get(id);
    if (!poly) {
      poly = L.polygon(closed, { color, weight: 2, fillColor: color, fillOpacity: .18 });
      capaGeofences.addLayer(poly);
      geofenceLayers.set(id, poly);
    } else {
      poly.setLatLngs(closed).setStyle({ color, fillColor: color, fillOpacity: .18, weight: 2 });
    }
  }
  \<close>
  The function returns the geofence (with \<open>_color\<close> when it was drawn) and the layers.
  A layer that exists is given the new shape and style where it stands, which is what
  \<open>mapSet\<close> does with the new polygon value.
\<close>

definition drawOneGeofence ::
  "(string \<times> polygon) list \<Rightarrow> geofence \<Rightarrow> nat \<Rightarrow> js_error + (geofence \<times> (string \<times> polygon) list)" where
  "drawOneGeofence layers g idx =
     (case parsePath (path g) of
        Inl e \<Rightarrow> Inl e
      | Inr pth \<Rightarrow>
          if pth = [] then Inr (g, layers)
          else
            let c = (if color g \<noteq> [] then color g else defaultColors ! (idx mod length defaultColors));
                closed = closePath pth
            in Inr (g\<lparr>ucolor := c\<rparr>, mapSet (gid g) (L_polygon closed c) layers))"

subsection \<open>The geofence snapshot\<close>

text \<open>
  The two module-level maps. The snapshot handler clears both, keeps the documents
  whose \<open>activo\<close> is not \<open>false\<close>, and for each of them, in order, stores it in
  \<open>geofenceById\<close> and draws it. A document is read through the fields the handler
  reads; \<open>None\<close> is an absent (falsy) path, and an array is truthy even when empty.
  When drawing throws, the handler stops there and the maps stay as they are then.
\<close>

record geo_state =
  geofenceById :: "(string \<times> geofence) list"
  geofenceLayers :: "(string \<times> polygon) list"

record geofenceDoc =
  doc_id :: string
  doc_activo :: jsval
  doc_nombre :: string
  doc_name :: string
  doc_color :: string
  doc_colour :: string
  doc_geometry_path :: "jsval list option"
  doc_path :: "jsval list option"

definition geofenceOfDoc :: "geofenceDoc \<Rightarrow> geofence" where
  "geofenceOfDoc d =
     \<lparr>gid = doc_id d,
      nombre = (if doc_nombre d \<noteq> [] then doc_nombre d else doc_name d),
      color = (if doc_color d \<noteq> [] then doc_color d else doc_colour d),
      path = (case doc_geometry_path d of
                Some p \<Rightarrow> p
              | None \<Rightarrow> (case doc_path d of Some p \<Rightarrow> p | None \<Rightarrow> [])),
      ucolor = []\<rparr>"

fun drawAll :: "geo_state \<Rightarrow> geofence list \<Rightarrow> nat \<Rightarrow> (js_error \<times> geo_state) + geo_state" where
  "drawAll st [] i = Inr st"
| "drawAll st (g # gs) i =
     (case drawOneGeofence (geofenceLayers st) g i of
        Inl e \<Rightarrow> Inl (e, st\<lparr>geofenceById := mapSet (gid g) g (geofenceById st)\<rparr>)
      | Inr (g', layers') \<Rightarrow>
          drawAll \<lparr>geofenceById = mapSet (gid g) g' (geofenceById st), geofenceLayers = layers'\<rparr> gs (Suc i))"

definition onGeofencesSnapshot :: "geofenceDoc list \<Rightarrow> (js_error \<times> geo_state) + geo_state" where
  "onGeofencesSnapshot snap =
     drawAll \<lparr>geofenceById = [], geofenceLayers = []\<rparr>
       (map geofenceOfDoc (filter (\<lambda>d. doc_activo d \<noteq> JBool False) snap)) 0"

section \<open>Point location (\<^verbatim>\<open>js/mapa.js\<close>)\<close>

text \<open>
  \<^verbatim>\<open>
  function onSegment(px, py, x1, y1, x2, y2, eps = 1e-10) {
    const cross = (px - x1) * (y2 - y1) - (py - y1) * (x2 - x1);
    if (Math.abs(cross) > eps) return false;
    const dot = (px - x1) * (px - x2) + (py - y1) * (py - y2);
    return dot <= eps;
  }
  \<close>
\<close>

definition eps :: jsnum where
  "eps = Fin (1 / 10 ^ 10)"

definition onSegment :: "jsnum \<Rightarrow> jsnum \<Rightarrow> jsnum \<Rightarrow> jsnum \<Rightarrow> jsnum \<Rightarrow> jsnum \<Rightarrow> bool" where
  "onSegment px py x1 y1 x2 y2 =
     (let cross = js_sub (js_mul (js_sub px x1) (js_sub y2 y1)) (js_mul (js_sub py y1) (js_sub x2 x1))
      in if js_gt (js_abs cross) eps then False
         else
           let dot = js_add (js_mul (js_sub px x1) (js_sub px x2)) (js_mul (js_sub py y1) (js_sub py y2))
           in js_le dot eps)"

text \<open>
  \<^verbatim>\<open>
  function pointInRing(lat, lng, ring) {
    let inside = false;
    for (let i = 0, j = ring.length - 1; i < ring.length; j = i++) {
      const xi = ring[i].lng, yi = ring[i].lat;
      const xj = ring[j].lng, yj = ring[j].lat;
      if (onSegment(lng, lat, xi, yi, xj, yj)) return true;
      const intersect = ((yi > lat) !== (yj > lat)) && (lng < (xj - xi) * (lat - yi) / (yj - yi) + xi);
      if (intersect) inside = !inside;
    }
    return inside;
  }
  \<close>
\<close>

definition intersect :: "jsnum \<Rightarrow> jsnum \<Rightarrow> jsnum \<Rightarrow> jsnum \<Rightarrow> jsnum \<Rightarrow> jsnum \<Rightarrow> bool" where
  "intersect lat lng xi yi xj yj =
     (if js_gt yi lat \<noteq> js_gt yj lat
      then js_lt lng (js_add (js_div (js_mul (js_sub xj xi) (js_sub lat yi)) (js_sub yj yi)) xi)
      else False)"

function pointInRingLoop :: "jsnum \<Rightarrow> jsnum \<Rightarrow> latlng list \<Rightarrow> nat \<Rightarrow> nat \<Rightarrow> bool \<Rightarrow> bool" where
  "pointInRingLoop lat lng ring i j inside =
     (if i < length ring then
        (if onSegment lng lat (snd (ring ! i)) (fst (ring ! i)) (snd (ring ! j)) (fst (ring ! j)) then True
         else pointInRingLoop lat lng ring (Suc i) i
                (if intersect lat lng (snd (ring ! i)) (fst (ring ! i)) (snd (ring ! j)) (fst (ring ! j))
                 then \<not> inside else inside))
      else inside)"
  by pat_completeness auto
termination
  by (relation "measure (\<lambda>(lat, lng, ring, i, j, inside). length ring - i)") auto

definition pointInRing :: "jsnum \<Rightarrow> jsnum \<Rightarrow> latlng list \<Rightarrow> bool" where
  "pointInRing lat lng ring = pointInRingLoop lat lng ring 0 (length ring - 1) False"

text \<open>
  \<^verbatim>\<open>
  export function sectorOfPoint(lat, lng) {
    for (const [id, poly] of geofenceLayers) {
      if (!poly.getBounds().contains([lat, lng])) continue;
      const g = geofenceById.get(id);
      if (!g) continue;
      const lls = poly.getLatLngs();
      const rings = Array.isArray(lls[0]) ? lls : [lls]; // Polygon o MultiPolygon
      for (const ring of rings) {
        if (ring && ring.length >= 3 && pointInRing(lat, lng, ring)) return { id, g };
      }
    }
    return null;
  }
  \<close>
  \<open>ringsOf\<close> is the line that computes \<open>rings\<close>; \<open>candidate\<close> is one turn of the outer
  loop, with the geofence when this polygon is the answer.
\<close>

definition ringsOf :: "latlngs \<Rightarrow> latlng list list" where
  "ringsOf lls = (case lls of Nested rs \<Rightarrow> rs | Flat r \<Rightarrow> [r])"

definition candidate ::
  "(string \<times> geofence) list \<Rightarrow> jsnum \<Rightarrow> jsnum \<Rightarrow> string \<Rightarrow> polygon \<Rightarrow> geofence option" where
  "candidate byId lat lng k poly =
     (if \<not> contains (getBounds poly) (lat, lng) then None
      else case map_of byId k of
             None \<Rightarrow> None
           | Some g \<Rightarrow>
               if list_ex (\<lambda>ring. length ring \<ge> 3 \<and> pointInRing lat lng ring) (ringsOf (getLatLngs poly))
               then Some g else None)"

fun locate ::
  "(string \<times> geofence) list \<Rightarrow> jsnum \<Rightarrow> jsnum \<Rightarrow> (string \<times> polygon) list \<Rightarrow> (string \<times> geofence) option" where
  "locate byId lat lng [] = None"
| "locate byId lat lng ((k, poly) # rest) =
     (case candidate byId lat lng k poly of
        Some g \<Rightarrow> Some (k, g)
      | None \<Rightarrow> locate byId lat lng rest)"

definition sectorOfPoint :: "geo_state \<Rightarrow> jsnum \<Rightarrow> jsnum \<Rightarrow> (string \<times> geofence) option" where
  "sectorOfPoint st lat lng = locate (geofenceById st) lat lng (geofenceLayers st)"

section \<open>Counting by sector (\<^verbatim>\<open>js/mapa.js\<close>)\<close>

text \<open>
  \<^verbatim>\<open>
  const sectorNumber = (name) => {
    const m = String(name || "").match(/(\d+)/);
    return m ? parseInt(m[1], 10) : Number.POSITIVE_INFINITY;
  };
  \<close>
  The first run of digits of the name, read as a decimal integer (exactly: the
  rounding of integers beyond \<open>2^53\<close> is not modelled).
\<close>

definition firstDigits :: "string \<Rightarrow> string" where
  "firstDigits s = takeWhile isDigit (dropWhile (\<lambda>c. \<not> isDigit c) s)"

definition sectorNumber :: "string \<Rightarrow> jsnum" where
  "sectorNumber name = (if firstDigits name = [] then PosInf else Fin (real (digitsVal (firstDigits name))))"

text \<open>
  \<^verbatim>\<open>
  const sectorLabel = (g) => {
    const n = sectorNumber(g?.nombre || g?.name);
    return Number.isFinite(n) ? `S${n}` : (g?.nombre || g?.name || "Sector");
  };
  \<close>
\<close>

definition sectorLabel :: "geofence \<Rightarrow> string" where
  "sectorLabel g =
     (case sectorNumber (nombre g) of
        Fin n \<Rightarrow> ''S'' @ decimal (nat \<lfloor>n\<rfloor>)
      | _ \<Rightarrow> (if nombre g \<noteq> [] then nombre g else ''Sector''))"

text \<open>
  \<open>Array.prototype.sort\<close> with a comparator is stable. For a consistent comparator, as
  the differences of sector numbers are, its result is the one of insertion sort: an
  element moves behind another only when the comparator is positive.
\<close>

fun insertBy :: "('a \<Rightarrow> 'a \<Rightarrow> jsnum) \<Rightarrow> 'a \<Rightarrow> 'a list \<Rightarrow> 'a list" where
  "insertBy cmp x [] = [x]"
| "insertBy cmp x (y # ys) = (if js_gt (cmp x y) (Fin 0) then y # insertBy cmp x ys else x # y # ys)"

definition jsSort :: "('a \<Rightarrow> 'a \<Rightarrow> jsnum) \<Rightarrow> 'a list \<Rightarrow> 'a list" where
  "jsSort cmp xs = foldr (insertBy cmp) xs []"

text \<open>An entry of the count map: \<open>{ label, num, color, name, count }\<close>.\<close>

record entry =
  label :: string
  num :: jsnum
  chipColor :: string
  chipName :: string
  count :: nat

text \<open>
  \<^verbatim>\<open>
  function baseSectorCountMap() {
    const map = new Map();
    const ordered = Array.from(geofenceById.values())
      .sort((a,b) => sectorNumber(a.nombre) - sectorNumber(b.nombre));
    for (const g of ordered) {
      const lab = sectorLabel(g);
      map.set(lab, { label: lab, num: sectorNumber(g.nombre),
        color: g._color || g.color || "#9ca3af", name: g.nombre || g.name || lab, count: 0 });
    }
    return map;
  }
  \<close>
\<close>

definition baseEntry :: "geofence \<Rightarrow> entry" where
  "baseEntry g =
     \<lparr>label = sectorLabel g,
      num = sectorNumber (nombre g),
      chipColor = (if ucolor g \<noteq> [] then ucolor g else if color g \<noteq> [] then color g else ''#9ca3af''),
      chipName = (if nombre g \<noteq> [] then nombre g else sectorLabel g),
      count = 0\<rparr>"

definition baseSectorCountMap :: "geo_state \<Rightarrow> (string \<times> entry) list" where
  "baseSectorCountMap st =
     foldl (\<lambda>m g. mapSet (sectorLabel g) (baseEntry g) m) []
       (jsSort (\<lambda>a b. js_sub (sectorNumber (nombre a)) (sectorNumber (nombre b)))
          (map snd (geofenceById st)))"

text \<open>
  \<^verbatim>\<open>
  function renderSectorLegend(countMap) {
    const arr = Array.from(countMap.values()).sort((a,b) => a.num - b.num);
    chipsBox.innerHTML = "";
    for (const it of arr) { ... one chip with it.color, it.label, it.count ... }
  }
  \<close>
  The result is the sequence of chips shown, one per entry.
\<close>

definition renderSectorLegend :: "(string \<times> entry) list \<Rightarrow> entry list" where
  "renderSectorLegend countMap = jsSort (\<lambda>a b. js_sub (num a) (num b)) (map snd countMap)"

text \<open>
  A value of the latest map that \<open>personal.js\<close> passes:
  \<open>{ data, when, coords, hasC }\<close>. \<open>coords\<close> is \<open>None\<close> when the property is missing,
  in which case the destructuring \<open>const [lat, lng] = info.coords\<close> throws.
\<close>

record info =
  infoData :: jsobj
  infoWhen :: jsdate
  coords :: "latlng option"
  hasC :: bool

text \<open>
  \<^verbatim>\<open>
  export function updateSectorCountsFrom(latestMap) {
    if (!geofenceLayers.size) { renderSectorLegend(baseSectorCountMap()); return; }
    const counts = baseSectorCountMap();
    for (const [, info] of latestMap) {
      const [lat, lng] = info.coords;
      const s = sectorOfPoint(lat, lng);
      if (!s) continue;
      const lab = sectorLabel(s.g);
      if (counts.has(lab)) counts.get(lab).count++;
      else counts.set(lab, { label: lab, num: sectorNumber(s.g.nombre),
        color: s.g._color || "#9ca3af", name: s.g.nombre || lab, count: 1 });
    }
    renderSectorLegend(counts);
  }
  \<close>
  \<open>countLoop\<close> is the loop; beside the counts it collects the points it passed to
  \<open>sectorOfPoint\<close>, in order. The function returns the chips rendered and those
  points, or the exception.
\<close>

definition newEntry :: "geofence \<Rightarrow> entry" where
  "newEntry g =
     \<lparr>label = sectorLabel g,
      num = sectorNumber (nombre g),
      chipColor = (if ucolor g \<noteq> [] then ucolor g else ''#9ca3af''),
      chipName = (if nombre g \<noteq> [] then nombre g else sectorLabel g),
      count = 1\<rparr>"

definition bump :: "geofence \<Rightarrow> (string \<times> entry) list \<Rightarrow> (string \<times> entry) list" where
  "bump g counts =
     (case map_of counts (sectorLabel g) of
        Some e \<Rightarrow> mapSet (sectorLabel g) (e\<lparr>count := count e + 1\<rparr>) counts
      | None \<Rightarrow> mapSet (sectorLabel g) (newEntry g) counts)"

fun countLoop ::
  "geo_state \<Rightarrow> (string \<times> entry) list \<Rightarrow> (string \<times> info) list \<Rightarrow> latlng list
     \<Rightarrow> js_error + ((string \<times> entry) list \<times> latlng list)" where
  "countLoop st counts [] qs = Inr (counts, qs)"
| "countLoop st counts ((k, i) # rest) qs =
     (case coords i of
        None \<Rightarrow> Inl TypeError
      | Some (lat, lng) \<Rightarrow>
          (case sectorOfPoint st lat lng of
             None \<Rightarrow> countLoop st counts rest (qs @ [(lat, lng)])
           | Some (k', g) \<Rightarrow> countLoop st (bump g counts) rest (qs @ [(lat, lng)])))"

definition updateSectorCountsFrom ::
  "geo_state \<Rightarrow> (string \<times> info) list \<Rightarrow> js_error + (entry list \<times> latlng list)" where
  "updateSectorCountsFrom st latestMap =
     (if geofenceLayers st = [] then Inr (renderSectorLegend (baseSectorCountMap st), [])
      else case countLoop st (baseSectorCountMap st) latestMap [] of
             Inl e \<Rightarrow> Inl e
           | Inr (counts, qs) \<Rightarrow> Inr (renderSectorLegend counts, qs))"

section \<open>Notifying subscribers (\<^verbatim>\<open>js/personal.js\<close>, \<^verbatim>\<open>js/alertas.js\<close>)\<close>

text \<open>
  \<^verbatim>\<open>
  const listeners = new Set();
  export const onAlertasUpdate = (cb) => { if (typeof cb === "function") listeners.add(cb); };
  const emit = () => listeners.forEach(cb => { try { cb(); } catch {} });
  \<close>
  Both modules have the same three lines. A \<open>Set\<close> keeps insertion order and ignores a
  member added again. A callback is code of a subscriber: run in a world \<open>w\<close> of the
  subscribers' own, it returns with a new world, or throws having changed the world
  (\<open>Inl\<close>). \<open>None\<close> is an argument that is not a function. A callback that subscribes
  another one while \<open>emit\<close> runs is outside the model.
\<close>

definition onUpdate :: "'cb option \<Rightarrow> 'cb list \<Rightarrow> 'cb list" where
  "onUpdate cb listeners =
     (case cb of
        None \<Rightarrow> listeners
      | Some f \<Rightarrow> (if f \<in> set listeners then listeners else listeners @ [f]))"

text \<open>\<open>xs.forEach(body)\<close>: an exception that leaves the body ends the iteration.\<close>

fun forEach :: "('a \<Rightarrow> 's \<Rightarrow> (js_error \<times> 's) + 's) \<Rightarrow> 'a list \<Rightarrow> 's \<Rightarrow> (js_error \<times> 's) + 's" where
  "forEach body [] s = Inr s"
| "forEach body (x # xs) s = (case body x s of Inl es \<Rightarrow> Inl es | Inr s' \<Rightarrow> forEach body xs s')"

text \<open>\<open>try { ... } catch {}\<close>: the exception is dropped, what was done stays done.\<close>

definition tryCatch :: "('s \<Rightarrow> (js_error \<times> 's) + 's) \<Rightarrow> 's \<Rightarrow> (js_error \<times> 's) + 's" where
  "tryCatch body s = (case body s of Inl (e, s') \<Rightarrow> Inr s' | Inr s' \<Rightarrow> Inr s')"

text \<open>
  The call \<open>cb()\<close>. The state is the list of callbacks invoked so far and the world.
\<close>

definition invoke ::
  "('cb \<Rightarrow> 'w \<Rightarrow> (js_error \<times> 'w) + 'w) \<Rightarrow> 'cb \<Rightarrow> 'cb list \<times> 'w \<Rightarrow> (js_error \<times> 'cb list \<times> 'w) + 'cb list \<times> 'w" where
  "invoke run cb s =
     (case run cb (snd s) of
        Inl (e, w') \<Rightarrow> Inl (e, fst s @ [cb], w')
      | Inr w' \<Rightarrow> Inr (fst s @ [cb], w'))"

definition emit ::
  "('cb \<Rightarrow> 'w \<Rightarrow> (js_error \<times> 'w) + 'w) \<Rightarrow> 'cb list \<Rightarrow> 'w \<Rightarrow> (js_error \<times> 'cb list \<times> 'w) + 'cb list \<times> 'w" where
  "emit run listeners w = forEach (\<lambda>cb. tryCatch (invoke run cb)) listeners ([], w)"

section \<open>The officers panel (\<^verbatim>\<open>js/personal.js\<close>)\<close>

text \<open>
  The object literals the two panels pass to \<open>getCoords\<close>:
  \<^verbatim>\<open>
  getCoords({ lat: data.lat, latitud: data.latitud, latitude: data.latitude,
              lng: data.lng, longitud: data.longitud, longitude: data.longitude, long: data.long })
  \<close>
  and, in \<open>alertas.js\<close>, the same without \<open>long\<close>.
\<close>

definition coordsArgA :: "jsobj \<Rightarrow> jsobj" where
  "coordsArgA d =
     [(''lat'', field d ''lat''), (''latitud'', field d ''latitud''), (''latitude'', field d ''latitude''),
      (''lng'', field d ''lng''), (''longitud'', field d ''longitud''), (''longitude'', field d ''longitude'')]"

definition coordsArgS :: "jsobj \<Rightarrow> jsobj" where
  "coordsArgS d = coordsArgA d @ [(''long'', field d ''long'')]"

text \<open>
  \<open>String(v)\<close>, and \<open>v && String(v).trim()\<close> read as a string (empty when \<open>v\<close> is falsy).
  \<^verbatim>\<open>
  const keyFor = (d) =>
    (d?.dni && String(d.dni).trim()) || (d?.nombre && String(d.nombre).trim()) || "sin-id";
  export const norm = (s) => (s ?? "").toString()
    .normalize("NFD").replace(/\p{Diacritic}/gu,"").trim().toLowerCase();
  \<close>
\<close>

definition toStr :: "host \<Rightarrow> jsval \<Rightarrow> string" where
  "toStr h v = (case v of JNum n \<Rightarrow> numberToString h n | _ \<Rightarrow> stringOf v)"

definition andTrim :: "host \<Rightarrow> jsval \<Rightarrow> string" where
  "andTrim h v = (if truthy v then trim (toStr h v) else [])"

definition keyFor :: "host \<Rightarrow> jsobj \<Rightarrow> string" where
  "keyFor h d =
     (if andTrim h (field d ''dni'') \<noteq> [] then andTrim h (field d ''dni'')
      else if andTrim h (field d ''nombre'') \<noteq> [] then andTrim h (field d ''nombre'')
      else ''sin-id'')"

definition norm :: "host \<Rightarrow> jsval \<Rightarrow> string" where
  "norm h v = normText h (if nullish v then [] else toStr h v)"

fun js_includes :: "string \<Rightarrow> string \<Rightarrow> bool" where
  "js_includes [] t = (t = [])"
| "js_includes (c # cs) t = (take (length t) (c # cs) = t \<or> js_includes cs t)"

text \<open>
  The filters of \<open>rebuildSerenos\<close> as read from the page: the shift interval
  (\<open>intervaloTurno(parseFecha(fecha), turno)\<close>), the normalised search text and the
  "only with comment" box.
\<close>

record serenosUI =
  uiStart :: jsdate
  uiEnd :: jsdate
  uiTexto :: string
  uiOnlyC :: bool

text \<open>A value of the cache \<open>docsS\<close>: \<open>{ data, when }\<close>.\<close>

record serenoRec =
  recData :: jsobj
  recWhen :: jsdate

definition okText :: "host \<Rightarrow> string \<Rightarrow> jsobj \<Rightarrow> bool" where
  "okText h texto d =
     (texto = []
      \<or> js_includes (norm h (field d ''nombre'')) texto
      \<or> js_includes (norm h (JStr (toStr h (if truthy (field d ''dni'') then field d ''dni'' else JStr [])))) texto)"

definition hasComment :: "host \<Rightarrow> jsobj \<Rightarrow> bool" where
  "hasComment h d = (andTrim h (field d ''comentario'') \<noteq> [])"

text \<open>
  One turn of the loop over \<open>docsS\<close>:
  \<^verbatim>\<open>
  for (const [, rec] of docsS) {
    const { data, when } = rec;
    const coords = getCoords({ ... });
    if (!coords) continue;
    if (!(when >= start && when < end)) continue;
    const okText = !texto || norm(data.nombre).includes(texto)
                          || norm(String(data.dni || "")).includes(texto);
    if (!okText) continue;
    const hasC = !!(data.comentario && String(data.comentario).trim());
    if (onlyC && !hasC) continue;
    const k = keyFor(data);
    const prev = latest.get(k);
    if (!prev || when > prev.when) latest.set(k, { data, when, coords, hasC });
  }
  \<close>
\<close>

definition latestStep :: "host \<Rightarrow> serenosUI \<Rightarrow> (string \<times> info) list \<Rightarrow> serenoRec \<Rightarrow> (string \<times> info) list" where
  "latestStep h ui latest r =
     (case getCoords (coordsArgS (recData r)) of
        None \<Rightarrow> latest
      | Some c \<Rightarrow>
          if \<not> (js_ge (getTime (recWhen r)) (getTime (uiStart ui))
                \<and> js_lt (getTime (recWhen r)) (getTime (uiEnd ui))) then latest
          else if \<not> okText h (uiTexto ui) (recData r) then latest
          else if uiOnlyC ui \<and> \<not> hasComment h (recData r) then latest
          else
            (case map_of latest (keyFor h (recData r)) of
               None \<Rightarrow>
                 mapSet (keyFor h (recData r))
                   \<lparr>infoData = recData r, infoWhen = recWhen r, coords = Some c,
                    hasC = hasComment h (recData r)\<rparr> latest
             | Some prev \<Rightarrow>
                 if js_gt (getTime (recWhen r)) (getTime (infoWhen prev))
                 then mapSet (keyFor h (recData r))
                        \<lparr>infoData = recData r, infoWhen = recWhen r, coords = Some c,
                         hasC = hasComment h (recData r)\<rparr> latest
                 else latest))"

text \<open>
  What a rebuild shows: the latest map, the markers on the layer (one per key of the
  latest map, at its coordinates), the number in the chip \<open>#countSerenos\<close>, and the
  sector chips that \<open>updateSectorCountsFrom(latest)\<close> renders. The cache of marker
  objects (\<open>markersS\<close>) only saves creating them anew and is left out.
\<close>

record serenosView =
  latestMap :: "(string \<times> info) list"
  markers :: "(string \<times> latlng option) list"
  countSerenos :: nat
  sectorChips :: "entry list"

definition serenosView ::
  "host \<Rightarrow> serenosUI \<Rightarrow> geo_state \<Rightarrow> (string \<times> serenoRec) list \<Rightarrow> js_error + serenosView" where
  "serenosView h ui st docsS =
     (let latest = foldl (latestStep h ui) [] (map snd docsS)
      in case updateSectorCountsFrom st latest of
           Inl e \<Rightarrow> Inl e
         | Inr (chips, qs) \<Rightarrow>
             Inr \<lparr>latestMap = latest,
                  markers = map (\<lambda>(k, i). (k, coords i)) latest,
                  countSerenos = length latest,
                  sectorChips = chips\<rparr>)"

text \<open>\<open>rebuildSerenos\<close>: the view, then \<open>emit()\<close>.\<close>

definition rebuildSerenos ::
  "('cb \<Rightarrow> 'w \<Rightarrow> (js_error \<times> 'w) + 'w) \<Rightarrow> 'cb list \<Rightarrow> 'w \<Rightarrow> host \<Rightarrow> serenosUI \<Rightarrow> geo_state
     \<Rightarrow> (string \<times> serenoRec) list \<Rightarrow> js_error + (serenosView \<times> 'cb list \<times> 'w)" where
  "rebuildSerenos run listeners w h ui st docsS =
     (case serenosView h ui st docsS of
        Inl e \<Rightarrow> Inl e
      | Inr v \<Rightarrow>
          (case emit run listeners w of
             Inl (e, s) \<Rightarrow> Inl e
           | Inr s \<Rightarrow> Inr (v, s)))"

section \<open>The alerts panel (\<^verbatim>\<open>js/alertas.js\<close>)\<close>

text \<open>A value of the cache \<open>docsA\<close>: \<open>{ id, data, when }\<close>.\<close>

record alertaRec =
  alertaId :: string
  alertaData :: jsobj
  alertaWhen :: jsdate

text \<open>
  \<^verbatim>\<open>
  const now = Date.now();
  const THIRTY_MIN = 30 * 60 * 1000;
  let start = null, end = null;
  if (mode === "range") { ... const r = intervaloTurno(parseFecha(fecha), turno);
                          start = r.start; end = r.end; }
  ...
  const include = (mode === "active")
    ? ((now - when.getTime()) <= THIRTY_MIN)
    : (when >= start && when < end);
  \<close>
  \<open>mode\<close> is the value read from the page, \<open>now\<close> the clock in milliseconds, \<open>r\<close> the
  interval of the selected date and shift. In a comparison \<open>null\<close> counts as 0.
\<close>

definition THIRTY_MIN :: jsnum where
  "THIRTY_MIN = Fin (30 * 60 * 1000)"

definition includeAlerta :: "string \<Rightarrow> int \<Rightarrow> jsdate \<times> jsdate \<Rightarrow> jsdate \<Rightarrow> bool" where
  "includeAlerta mode now r whn =
     (if mode = ''active'' then js_le (js_sub (Fin (of_int now)) (getTime whn)) THIRTY_MIN
      else js_ge (getTime whn) (if mode = ''range'' then getTime (fst r) else Fin 0)
           \<and> js_lt (getTime whn) (if mode = ''range'' then getTime (snd r) else Fin 0))"

text \<open>
  The loop of \<open>rebuildAlertas\<close> puts one marker per included record on the cleared
  layer, keyed by the record's id, at its coordinates, pulsing in the active mode; the
  chip \<open>#countAlertas\<close> shows their number.
  \<^verbatim>\<open>
  for (const [, rec] of docsA) {
    const coords = getCoords({ ... });
    if (!coords) continue;
    const when = rec.when;
    const include = ...;
    if (!include) continue;
    ... marker for rec.id at coords ...
    capaAlertas.addLayer(m);
    visibles++;
  }
  \<close>
\<close>

record alertasView =
  capaAlertas :: "(string \<times> latlng \<times> bool) list"
  visibles :: nat

fun alertasLoop ::
  "string \<Rightarrow> int \<Rightarrow> jsdate \<times> jsdate \<Rightarrow> (string \<times> alertaRec) list \<Rightarrow> alertasView \<Rightarrow> alertasView" where
  "alertasLoop mode now r [] v = v"
| "alertasLoop mode now r ((k, rec) # rest) v =
     (case getCoords (coordsArgA (alertaData rec)) of
        None \<Rightarrow> alertasLoop mode now r rest v
      | Some c \<Rightarrow>
          if \<not> includeAlerta mode now r (alertaWhen rec) then alertasLoop mode now r rest v
          else alertasLoop mode now r rest
                 \<lparr>capaAlertas = capaAlertas v @ [(alertaId rec, c, mode = ''active'')],
                  visibles = visibles v + 1\<rparr>)"

definition rebuildAlertas ::
  "('cb \<Rightarrow> 'w \<Rightarrow> (js_error \<times> 'w) + 'w) \<Rightarrow> 'cb list \<Rightarrow> 'w \<Rightarrow> string \<Rightarrow> int \<Rightarrow> jsdate \<times> jsdate
     \<Rightarrow> (string \<times> alertaRec) list \<Rightarrow> js_error + (alertasView \<times> 'cb list \<times> 'w)" where
  "rebuildAlertas run listeners w mode now r docsA =
     (case emit run listeners w of
        Inl (e, s) \<Rightarrow> Inl e
      | Inr s \<Rightarrow> Inr (alertasLoop mode now r docsA \<lparr>capaAlertas = [], visibles = 0\<rparr>, s))"

section \<open>Notions used in the statements\<close>

text \<open>
  The world after every listener has run in turn, whether it returned or threw, and the
  listeners registered by a sequence of calls of \<open>onAlertasUpdate\<close> (or
  \<open>onSerenosUpdate\<close>) on the empty set.
\<close>

definition worldAfter :: "('cb \<Rightarrow> 'w \<Rightarrow> (js_error \<times> 'w) + 'w) \<Rightarrow> 'cb list \<Rightarrow> 'w \<Rightarrow> 'w" where
  "worldAfter run listeners w =
     foldl (\<lambda>w' cb. case run cb w' of Inl (e, w'') \<Rightarrow> w'' | Inr w'' \<Rightarrow> w'') w listeners"

definition subscribed :: "'cb option list \<Rightarrow> 'cb list" where
  "subscribed cbs = foldl (\<lambda>listeners cb. onUpdate cb listeners) [] cbs"

text \<open>
  The geofence of the specification's end-to-end examples: \<open>g1\<close>, named "Sector 4",
  the unit square. \<open>twoPoints\<close> is a geofence whose path has two vertices.
\<close>

definition vertex :: "real \<Rightarrow> real \<Rightarrow> jsval" where
  "vertex a b = JObj [(''lat'', JNum (Fin a)), (''lng'', JNum (Fin b))]"

definition sector4 :: geofence where
  "sector4 = \<lparr>gid = ''g1'', nombre = ''Sector 4'', color = [],
              path = [vertex 0 0, vertex 0 1, vertex 1 1, vertex 1 0], ucolor = []\<rparr>"


text \<open>
  The marker, if any, that one record of \<open>docsA\<close> puts on the alert layer; an alert dated
  after the clock readings used below; and officer records with given \<open>lat\<close> and
  \<open>lng\<close> fields.
\<close>

definition markerOf :: "string \<Rightarrow> int \<Rightarrow> jsdate \<times> jsdate \<Rightarrow> alertaRec \<Rightarrow> (string \<times> latlng \<times> bool) list" where
  "markerOf mode now r rec =
     (case getCoords (coordsArgA (alertaData rec)) of
        None \<Rightarrow> []
      | Some c \<Rightarrow> if includeAlerta mode now r (alertaWhen rec) then [(alertaId rec, c, mode = ''active'')] else [])"

definition futureAlert :: alertaRec where
  "futureAlert = \<lparr>alertaId = ''a1'', alertaData = [(''lat'', JNum (Fin 1)), (''lng'', JNum (Fin 2))],
                  alertaWhen = DateMs 2000\<rparr>"

definition officerAt :: "jsval \<Rightarrow> jsval \<Rightarrow> serenoRec" where
  "officerAt a b = \<lparr>recData = [(''dni'', JStr ''111''), (''lat'', a), (''lng'', b)], recWhen = DateMs 0\<rparr>"

text \<open>
  A host, filters and a shift for the closed examples: the host reads one ISO string as
  a date and no other; none of the examples reaches its calendar, its number printer
  or its normaliser. The shift is T1 (07:00 to 15:00) of a day whose local midnight is
  the instant 0.
\<close>

definition host0 :: host where
  "host0 =
     \<lparr>dateParse = (\<lambda>s. if s = ''2025-09-11T12:00:00Z'' then DateMs 1757592000000 else InvalidDate),
      localDate = (\<lambda>y m d. InvalidDate),
      plusEmpty = stringOf,
      numberToString = (\<lambda>n. []),
      normText = (\<lambda>s. s)\<rparr>"

definition ui0 :: serenosUI where
  "ui0 = \<lparr>uiStart = DateMs 25200000, uiEnd = DateMs 54000000, uiTexto = [], uiOnlyC = False\<rparr>"

definition noGeofences :: geo_state where
  "noGeofences = \<lparr>geofenceById = [], geofenceLayers = []\<rparr>"

text \<open>
  The index of the vertex before vertex \<open>i\<close> of a ring, going round: the \<open>j\<close> of the
  loop of \<open>pointInRing\<close> when it looks at the segment that ends in vertex \<open>i\<close>. A
  distance below the tolerance \<open>1e-10\<close> of \<open>onSegment\<close>. And the maps after a snapshot
  that holds the geofence \<open>g1\<close> alone.
\<close>

definition prevIndex :: "'a list \<Rightarrow> nat \<Rightarrow> nat" where
  "prevIndex ring i = (if i = 0 then length ring - 1 else i - 1)"

definition tiny :: real where
  "tiny = 1 / 10 ^ 11"

definition sector4State :: geo_state where
  "sector4State =
     \<lparr>geofenceById = [(''g1'', sector4\<lparr>ucolor := ''#ef4444''\<rparr>)],
      geofenceLayers =
        [(''g1'', L_polygon [(Fin 0, Fin 0), (Fin 0, Fin 1), (Fin 1, Fin 1), (Fin 1, Fin 0), (Fin 0, Fin 0)]
                    ''#ef4444'')]\<rparr>"

text \<open>
  An entry of the latest map lies in a sector labelled \<open>lab\<close> when \<open>sectorOfPoint\<close>
  finds, for its coordinates, a geofence with that label.
\<close>

definition locatedIn :: "geo_state \<Rightarrow> string \<Rightarrow> info \<Rightarrow> bool" where
  "locatedIn st lab i =
     (case coords i of
        None \<Rightarrow> False
      | Some (lat, lng) \<Rightarrow>
          (case sectorOfPoint st lat lng of
             None \<Rightarrow> False
           | Some (k, g) \<Rightarrow> sectorLabel g = lab))"

text \<open>
  What every count map of the code satisfies: its keys are distinct, and an entry
  stands under its own label, with the number of a geofence that has this label.
  \<open>countOf\<close> is the count under a label, 0 when the label is absent.
\<close>

definition countMapOk :: "(string \<times> entry) list \<Rightarrow> bool" where
  "countMapOk m =
     (distinct (map fst m)
      \<and> list_all (\<lambda>ke. label (snd ke) = fst ke
                      \<and> (\<exists>g. sectorLabel g = fst ke \<and> num (snd ke) = sectorNumber (nombre g))) m)"

definition countOf :: "(string \<times> entry) list \<Rightarrow> string \<Rightarrow> nat" where
  "countOf m lab = (case map_of m lab of None \<Rightarrow> 0 | Some e \<Rightarrow> count e)"

text \<open>
  Three geofences named as in the specification's ordering example, recorded in the
  order "Sector 12", "Sector 4", "Zona Norte"; only "Sector 4" has a path. Two
  geofences that are both named "Sector 5", the unit square and the square two degrees
  east of it. An officer's entry of the latest map at given coordinates.
\<close>

definition sector12 :: geofence where
  "sector12 = \<lparr>gid = ''g12'', nombre = ''Sector 12'', color = [], path = [], ucolor = []\<rparr>"

definition zonaNorte :: geofence where
  "zonaNorte = \<lparr>gid = ''gz'', nombre = ''Zona Norte'', color = [], path = [], ucolor = []\<rparr>"

definition threeSectors :: geo_state where
  "threeSectors =
     \<lparr>geofenceById = [(''g12'', sector12), (''g1'', sector4\<lparr>ucolor := ''#f59e0b''\<rparr>), (''gz'', zonaNorte)],
      geofenceLayers =
        [(''g1'', L_polygon [(Fin 0, Fin 0), (Fin 0, Fin 1), (Fin 1, Fin 1), (Fin 1, Fin 0), (Fin 0, Fin 0)]
                    ''#f59e0b'')]\<rparr>"

definition sector5a :: geofence where
  "sector5a = \<lparr>gid = ''a'', nombre = ''Sector 5'', color = [],
               path = [vertex 0 0, vertex 0 1, vertex 1 1, vertex 1 0], ucolor = []\<rparr>"

definition sector5b :: geofence where
  "sector5b = \<lparr>gid = ''b'', nombre = ''Sector 5'', color = [],
               path = [vertex 0 2, vertex 0 3, vertex 1 3, vertex 1 2], ucolor = []\<rparr>"

definition twoSector5 :: geo_state where
  "twoSector5 =
     \<lparr>geofenceById = [(''a'', sector5a\<lparr>ucolor := ''#ef4444''\<rparr>), (''b'', sector5b\<lparr>ucolor := ''#f59e0b''\<rparr>)],
      geofenceLayers =
        [(''a'', L_polygon [(Fin 0, Fin 0), (Fin 0, Fin 1), (Fin 1, Fin 1), (Fin 1, Fin 0), (Fin 0, Fin 0)]
                   ''#ef4444''),
         (''b'', L_polygon [(Fin 0, Fin 2), (Fin 0, Fin 3), (Fin 1, Fin 3), (Fin 1, Fin 2), (Fin 0, Fin 2)]
                   ''#f59e0b'')]\<rparr>"

definition officerInfo :: "real \<Rightarrow> real \<Rightarrow> info" where
  "officerInfo a b = \<lparr>infoData = [], infoWhen = DateMs 0, coords = Some (Fin a, Fin b), hasC = False\<rparr>"

text \<open>
  Two adjacent sectors: the unit square and the square east of it, which share the
  edge at longitude 1.
\<close>

definition sectorWest :: geofence where
  "sectorWest = \<lparr>gid = ''w'', nombre = ''Sector 1'', color = [],
                 path = [vertex 0 0, vertex 0 1, vertex 1 1, vertex 1 0], ucolor = []\<rparr>"

definition sectorEast :: geofence where
  "sectorEast = \<lparr>gid = ''e'', nombre = ''Sector 2'', color = [],
                 path = [vertex 0 1, vertex 0 2, vertex 1 2, vertex 1 1], ucolor = []\<rparr>"

definition adjacentSectors :: geo_state where
  "adjacentSectors =
     \<lparr>geofenceById = [(''w'', sectorWest\<lparr>ucolor := ''#ef4444''\<rparr>), (''e'', sectorEast\<lparr>ucolor := ''#f59e0b''\<rparr>)],
      geofenceLayers =
        [(''w'', L_polygon [(Fin 0, Fin 0), (Fin 0, Fin 1), (Fin 1, Fin 1), (Fin 1, Fin 0), (Fin 0, Fin 0)]
                   ''#ef4444''),
         (''e'', L_polygon [(Fin 0, Fin 1), (Fin 0, Fin 2), (Fin 1, Fin 2), (Fin 1, Fin 1), (Fin 0, Fin 1)]
                   ''#f59e0b'')]\<rparr>"

text \<open>
  Documents of the \<open>geofences\<close> collection: the unit square named "Sector 4", a
  geofence none of whose path elements has numeric coordinates, and one whose path holds
  a \<open>null\<close>.
\<close>

definition sector4Doc :: geofenceDoc where
  "sector4Doc =
     \<lparr>doc_id = ''g1'', doc_activo = JUndefined, doc_nombre = ''Sector 4'', doc_name = [], doc_color = [],
      doc_colour = [], doc_geometry_path = None,
      doc_path = Some [vertex 0 0, vertex 0 1, vertex 1 1, vertex 1 0]\<rparr>"


definition nullVertexDoc :: geofenceDoc where
  "nullVertexDoc =
     \<lparr>doc_id = ''g3'', doc_activo = JUndefined, doc_nombre = ''Sector 3'', doc_name = [], doc_color = [],
      doc_colour = [], doc_geometry_path = None,
      doc_path = Some [vertex 0 0, vertex 0 1, vertex 1 1, JNull]\<rparr>"

text \<open>
  A coordinate field as a document may write it: a number, or a string made of white
  space, a sign, integer digits, a comma, fraction digits and trailing text. \<open>written\<close>
  is the value of the field, \<open>reading\<close> the number meant when the comma is the decimal
  separator, and \<open>wellWritten\<close> says that the parts of the string are what their names
  say: the sign is empty, \<open>-\<close> or \<open>+\<close>, there is at least one digit, and the trailing
  text does not start with a digit or an exponent mark.
\<close>

datatype coordField = ANumber real | AText string string string string string

fun written :: "coordField \<Rightarrow> jsval" where
  "written (ANumber x) = JNum (Fin x)"
| "written (AText ws sg a b t) = JStr (ws @ sg @ a @ '','' @ b @ t)"

fun reading :: "coordField \<Rightarrow> real" where
  "reading (ANumber x) = x"
| "reading (AText ws sg a b t) =
     (if sg = ''-'' then - 1 else 1) * (real (digitsVal a) + real (digitsVal b) / 10 ^ length b)"

fun wellWritten :: "coordField \<Rightarrow> bool" where
  "wellWritten (ANumber x) = True"
| "wellWritten (AText ws sg a b t) =
     (list_all isWhiteSpace ws \<and> sg \<in> set [[], ''-'', ''+''] \<and> list_all isDigit a \<and> list_all isDigit b
      \<and> a @ b \<noteq> []
      \<and> (case t of [] \<Rightarrow> True | c # r \<Rightarrow> \<not> isDigit c \<and> c \<noteq> CHR ''e'' \<and> c \<noteq> CHR ''E''))"

section \<open>Properties\<close>

declare decimal.simps [simp del]

declare pointInRingLoop.simps [simp del]

subsection \<open>Maps and sorting\<close>

lemma map_of_mapSet: "map_of (mapSet k v m) k' = (if k' = k then Some v else map_of m k')"
  by (induction m) auto

lemma mapSet_member: "(k', e) \<in> set (mapSet k v m) \<Longrightarrow> (k' = k \<and> e = v) \<or> (k', e) \<in> set m"
  by (induction m) (auto split: if_splits)

lemma mapSet_values: "snd ` set (mapSet k v m) \<subseteq> insert v (snd ` set m)"
  using mapSet_member [of _ _ k v m] by force

lemma insertBy_set: "set (insertBy cmp x ys) = insert x (set ys)"
  by (induction ys) auto

lemma jsSort_set: "set (jsSort cmp xs) = set xs"
  by (induction xs) (simp_all add: jsSort_def insertBy_set)

lemma insertBy_length: "length (insertBy cmp x ys) = Suc (length ys)"
  by (induction ys) auto

lemma jsSort_length: "length (jsSort cmp xs) = length xs"
  by (induction xs) (simp_all add: jsSort_def insertBy_length)

lemma foldl_mapSet_values:
  "(\<And>e. e \<in> snd ` set m \<Longrightarrow> P e) \<Longrightarrow> (\<And>g. g \<in> set gs \<Longrightarrow> P (f g)) \<Longrightarrow>
   e \<in> snd ` set (foldl (\<lambda>m g. mapSet (l g) (f g) m) m gs) \<Longrightarrow> P e"
proof (induction gs arbitrary: m)
  case Nil
  then show ?case by simp
next
  case (Cons g gs)
  have step: "\<And>e. e \<in> snd ` set (mapSet (l g) (f g) m) \<Longrightarrow> P e"
  proof -
    fix e assume "e \<in> snd ` set (mapSet (l g) (f g) m)"
    then have "e = f g \<or> e \<in> snd ` set m" using mapSet_values [of "l g" "f g" m] by auto
    then show "P e" using Cons.prems(1) Cons.prems(2) [of g] by auto
  qed
  show ?case
    by (rule Cons.IH [of "mapSet (l g) (f g) m"]) (use step Cons.prems in auto)
qed

subsection \<open>Evaluating names and labels\<close>

lemma decimal_small: "n < 10 \<Longrightarrow> decimal n = [digitChar n]"
  by (simp add: decimal.simps)

lemmas scan_defs = isDigit_def digitVal_def digitsVal_def firstDigits_def

lemma sectorLabel_sector4:
  "sectorLabel \<lparr>gid = i, nombre = ''Sector 4'', color = c, path = p, ucolor = u\<rparr> = ''S4''"
  by (simp add: sectorLabel_def sectorNumber_def scan_defs decimal_small digitChar_def)

subsection \<open>Subscribers\<close>

lemma forEach_tryCatch_invoke:
  "forEach (\<lambda>cb. tryCatch (invoke run cb)) ls (lg, w) = Inr (lg @ ls, worldAfter run ls w)"
proof (induction ls arbitrary: lg w)
  case Nil
  show ?case by (simp add: worldAfter_def)
next
  case (Cons cb ls)
  show ?case
  proof (cases "run cb w")
    case (Inl ew)
    then show ?thesis
      using Cons.IH [of "lg @ [cb]" "snd ew"]
      by (cases ew) (simp add: tryCatch_def invoke_def worldAfter_def)
  next
    case (Inr w')
    then show ?thesis
      using Cons.IH [of "lg @ [cb]" w']
      by (simp add: tryCatch_def invoke_def worldAfter_def)
  qed
qed

lemma emit_total: "emit run ls w = Inr (ls, worldAfter run ls w)"
  using forEach_tryCatch_invoke [of run ls "[]" w] by (simp add: emit_def)

lemma onUpdate_distinct: "distinct ls \<Longrightarrow> distinct (onUpdate cb ls)"
  by (cases cb) (auto simp: onUpdate_def)

lemma onUpdate_set: "set (onUpdate cb ls) = set ls \<union> set_option cb"
  by (cases cb) (auto simp: onUpdate_def)

lemma subscribed_aux:
  "distinct ls \<Longrightarrow> distinct (foldl (\<lambda>l cb. onUpdate cb l) ls cbs)
     \<and> set (foldl (\<lambda>l cb. onUpdate cb l) ls cbs) = set ls \<union> {f. Some f \<in> set cbs}"
proof (induction cbs arbitrary: ls)
  case Nil
  then show ?case by simp
next
  case (Cons cb cbs)
  have "distinct (onUpdate cb ls)" using Cons.prems by (rule onUpdate_distinct)
  from Cons.IH [OF this] show ?case
    by (cases cb) (auto simp: onUpdate_set)
qed

subsection \<open>No geofence layers\<close>

lemma base_count_zero: "e \<in> snd ` set (baseSectorCountMap st) \<Longrightarrow> count e = 0"
  unfolding baseSectorCountMap_def
  by (erule foldl_mapSet_values [rotated 2]) (simp_all add: baseEntry_def)

text \<open>
  C4. When no geofence layer is registered, \<open>updateSectorCountsFrom\<close> returns normally
  for every latest map, stale and malformed ones included: it renders the base summary,
  in which every count is 0, it renders nothing when no geofence is recorded, and it
  passes no point to \<open>sectorOfPoint\<close>.
\<close>

theorem no_layers_all_zero:
  assumes "geofenceLayers st = []"
  shows "updateSectorCountsFrom st latest = Inr (renderSectorLegend (baseSectorCountMap st), [])
         \<and> list_all (\<lambda>e. count e = 0) (renderSectorLegend (baseSectorCountMap st))
         \<and> (geofenceById st = [] \<longrightarrow> renderSectorLegend (baseSectorCountMap st) = [])"
proof -
  have "list_all (\<lambda>e. count e = 0) (renderSectorLegend (baseSectorCountMap st))"
    by (auto simp: list_all_iff renderSectorLegend_def jsSort_set dest!: base_count_zero [OF imageI])
  moreover have "geofenceById st = [] \<longrightarrow> renderSectorLegend (baseSectorCountMap st) = []"
    by (simp add: renderSectorLegend_def baseSectorCountMap_def jsSort_def)
  ultimately show ?thesis using assms by (simp add: updateSectorCountsFrom_def)
qed

theorem no_layers_all_zero_witness:
  "geofenceLayers \<lparr>geofenceById = [(''g1'', sector4)], geofenceLayers = []\<rparr> = []
   \<and> updateSectorCountsFrom \<lparr>geofenceById = [(''g1'', sector4)], geofenceLayers = []\<rparr>
        [(''111'', \<lparr>infoData = [], infoWhen = DateMs 0, coords = None, hasC = False\<rparr>)]
      = Inr ([\<lparr>label = ''S4'', num = Fin 4, chipColor = ''#9ca3af'', chipName = ''Sector 4'', count = 0\<rparr>], [])
   \<and> updateSectorCountsFrom \<lparr>geofenceById = [], geofenceLayers = []\<rparr>
        [(''111'', \<lparr>infoData = [], infoWhen = DateMs 0, coords = None, hasC = False\<rparr>)]
      = Inr ([], [])"
  using no_layers_all_zero [of "\<lparr>geofenceById = [(''g1'', sector4)], geofenceLayers = []\<rparr>"
          "[(''111'', \<lparr>infoData = [], infoWhen = DateMs 0, coords = None, hasC = False\<rparr>)]"]
        no_layers_all_zero [of "\<lparr>geofenceById = [], geofenceLayers = []\<rparr>"
          "[(''111'', \<lparr>infoData = [], infoWhen = DateMs 0, coords = None, hasC = False\<rparr>)]"]
  by (simp add: renderSectorLegend_def baseSectorCountMap_def jsSort_def baseEntry_def
        sector4_def sectorLabel_sector4 sectorNumber_def scan_defs)

subsection \<open>Drawing\<close>




lemma parsePath_sector4:
  "parsePath (path sector4) = Inr [(Fin 0, Fin 0), (Fin 0, Fin 1), (Fin 1, Fin 1), (Fin 1, Fin 0)]"
  by (simp add: sector4_def vertex_def parsePath_def nullish_def getProp_def field_def)















text \<open>
  A \<open>null\<close> vertex in the path of one geofence stops the snapshot handler there: the
  geofences after it are neither recorded nor drawn.
\<close>

lemma null_vertex_aborts_snapshot:
  "onGeofencesSnapshot [nullVertexDoc, sector4Doc]
     = Inl (TypeError, \<lparr>geofenceById = [(''g3'', geofenceOfDoc nullVertexDoc)], geofenceLayers = []\<rparr>)"
  by code_simp

subsection \<open>Coordinates\<close>

lemma digit_facts:
  "isDigit c \<Longrightarrow> \<not> isWhiteSpace c \<and> c \<noteq> CHR ''-'' \<and> c \<noteq> CHR ''+'' \<and> c \<noteq> CHR ''I'' \<and> c \<noteq> CHR '','' \<and> c \<noteq> CHR ''.''"
  by (auto simp: isDigit_def isWhiteSpace_def)

lemma replaceFirst_prefix: "x \<notin> set a \<Longrightarrow> replaceFirst x y (a @ x # b) = a @ y # b"
  by (induction a) auto

lemma white_facts: "isWhiteSpace c \<Longrightarrow> c \<noteq> CHR '','' \<and> \<not> isDigit c \<and> c \<noteq> CHR ''.'' \<and> c \<noteq> CHR ''-'' \<and> c \<noteq> CHR ''+''"
  by (auto simp: isWhiteSpace_def isDigit_def)

lemma dropWhile_white:
  assumes "list_all isWhiteSpace ws" and "r \<noteq> []" and "\<not> isWhiteSpace (hd r)"
  shows "dropWhile isWhiteSpace (ws @ r) = r"
proof -
  have "\<And>x. x \<in> set ws \<Longrightarrow> isWhiteSpace x" using assms(1) by (simp add: list_all_iff)
  then have "dropWhile isWhiteSpace (ws @ r) = dropWhile isWhiteSpace r" by (simp add: dropWhile_append2)
  also have "\<dots> = r" using assms(2,3) by (cases r) simp_all
  finally show ?thesis .
qed

lemma scanExponent_rest:
  "(case t of [] \<Rightarrow> True | c # r \<Rightarrow> \<not> isDigit c \<and> c \<noteq> CHR ''e'' \<and> c \<noteq> CHR ''E'') \<Longrightarrow> scanExponent t = (0, t)"
  by (cases t) (simp_all add: scanExponent_def)

lemma takeWhile_rest:
  "(case t of [] \<Rightarrow> True | c # r \<Rightarrow> \<not> isDigit c \<and> c \<noteq> CHR ''e'' \<and> c \<noteq> CHR ''E'') \<Longrightarrow>
     takeWhile isDigit t = [] \<and> dropWhile isDigit t = t"
  by (cases t) simp_all

lemma Infinity_head: "take 8 s = ''Infinity'' \<Longrightarrow> s \<noteq> [] \<and> hd s = CHR ''I''"
  by (cases s) auto

lemma scanUnsigned_decimal:
  assumes "list_all isDigit a" and "list_all isDigit b" and "a @ b \<noteq> []"
    and "case t of [] \<Rightarrow> True | c # r \<Rightarrow> \<not> isDigit c \<and> c \<noteq> CHR ''e'' \<and> c \<noteq> CHR ''E''"
  shows "scanUnsigned (a @ CHR ''.'' # b @ t)
           = (Fin (real (digitsVal a) + real (digitsVal b) / 10 ^ length b), t)"
proof -
  have all_a: "\<And>x. x \<in> set a \<Longrightarrow> isDigit x" using assms(1) by (simp add: list_all_iff)
  have all_b: "\<And>x. x \<in> set b \<Longrightarrow> isDigit x" using assms(2) by (simp add: list_all_iff)
  have nd: "\<not> isDigit (CHR ''.'')" by (simp add: isDigit_def)
  have hd_ok: "hd (a @ CHR ''.'' # b @ t) \<noteq> CHR ''I''"
  proof (cases a)
    case Nil
    then show ?thesis by simp
  next
    case (Cons d a')
    then have "isDigit d" using all_a by simp
    then show ?thesis using Cons digit_facts by auto
  qed
  have inf: "take 8 (a @ CHR ''.'' # b @ t) \<noteq> ''Infinity''"
    using hd_ok Infinity_head by blast
  have tw: "takeWhile isDigit (a @ CHR ''.'' # b @ t) = a"
    using all_a nd by (simp add: takeWhile_append2)
  have dw: "dropWhile isDigit (a @ CHR ''.'' # b @ t) = CHR ''.'' # b @ t"
    using all_a nd by (simp add: dropWhile_append2)
  have twb: "takeWhile isDigit (b @ t) = b"
    using all_b takeWhile_rest [OF assms(4)] by (simp add: takeWhile_append2)
  have dwb: "dropWhile isDigit (b @ t) = t"
    using all_b takeWhile_rest [OF assms(4)] by (simp add: dropWhile_append2)
  have ne: "\<not> (a = [] \<and> b = [])" using assms(3) by simp
  show ?thesis
    using inf ne by (simp add: scanUnsigned_def tw dw twb dwb scanExponent_rest [OF assms(4)] Let_def)
qed

lemma scanSigned_decimal:
  assumes "sg \<in> set [[], ''-'', ''+'']" and "list_all isDigit a" and "list_all isDigit b" and "a @ b \<noteq> []"
    and "case t of [] \<Rightarrow> True | c # r \<Rightarrow> \<not> isDigit c \<and> c \<noteq> CHR ''e'' \<and> c \<noteq> CHR ''E''"
  shows "fst (scanSigned (sg @ a @ CHR ''.'' # b @ t))
           = Fin ((if sg = ''-'' then - 1 else 1) * (real (digitsVal a) + real (digitsVal b) / 10 ^ length b))"
proof -
  note u = scanUnsigned_decimal [OF assms(2-5)]
  have hd_ok: "hd (a @ CHR ''.'' # b @ t) \<noteq> CHR ''-'' \<and> hd (a @ CHR ''.'' # b @ t) \<noteq> CHR ''+''"
  proof (cases a)
    case Nil
    then show ?thesis by simp
  next
    case (Cons d a')
    then have "isDigit d" using assms(2) by simp
    then show ?thesis using Cons digit_facts by auto
  qed
  obtain c r where cr: "a @ CHR ''.'' # b @ t = c # r" by (cases "a @ CHR ''.'' # b @ t") auto
  then have c: "c \<noteq> CHR ''-''" "c \<noteq> CHR ''+''" using hd_ok by auto
  consider "sg = []" | "sg = ''-''" | "sg = ''+''" using assms(1) by auto
  then show ?thesis
  proof cases
    case 1
    have "scanSigned (c # r) = scanUnsigned (c # r)" using c by (simp add: scanSigned_def)
    then show ?thesis using 1 u cr by simp
  next
    case 2
    then show ?thesis using u by (simp add: scanSigned_def)
  next
    case 3
    then show ?thesis using u by (simp add: scanSigned_def)
  qed
qed

lemma toNum_written:
  assumes "wellWritten p"
  shows "toNum (written p) = Fin (reading p)"
proof (cases p)
  case (ANumber x)
  then show ?thesis by simp
next
  case (AText ws sg a b t)
  from assms AText have ws: "list_all isWhiteSpace ws" and sg: "sg \<in> set [[], ''-'', ''+'']"
    and a: "list_all isDigit a" and b: "list_all isDigit b" and ab: "a @ b \<noteq> []"
    and t: "case t of [] \<Rightarrow> True | c # r \<Rightarrow> \<not> isDigit c \<and> c \<noteq> CHR ''e'' \<and> c \<noteq> CHR ''E''"
    by simp_all
  have "CHR '','' \<notin> set ws" using ws white_facts by (auto simp: list_all_iff)
  moreover have "CHR '','' \<notin> set sg" using sg by auto
  moreover have "CHR '','' \<notin> set a" using a digit_facts by (auto simp: list_all_iff)
  ultimately have "CHR '','' \<notin> set (ws @ sg @ a)" by simp
  from replaceFirst_prefix [OF this, of "CHR ''.''" "b @ t"]
  have r: "replaceFirst (CHR '','') (CHR ''.'') (ws @ sg @ a @ '','' @ b @ t) = ws @ (sg @ a @ CHR ''.'' # b @ t)"
    by simp
  have hdr: "\<not> isWhiteSpace (hd (sg @ a @ CHR ''.'' # b @ t))"
  proof (cases "sg = []")
    case False
    then show ?thesis using sg by (auto simp: isWhiteSpace_def)
  next
    case True
    show ?thesis
    proof (cases a)
      case Nil
      then show ?thesis using True by (simp add: isWhiteSpace_def)
    next
      case (Cons d a')
      then have "isDigit d" using a by simp
      then show ?thesis using True Cons digit_facts by auto
    qed
  qed
  have ne: "sg @ a @ CHR ''.'' # b @ t \<noteq> []" by simp
  have "parseFloat (ws @ (sg @ a @ CHR ''.'' # b @ t)) = fst (scanSigned (sg @ a @ CHR ''.'' # b @ t))"
    unfolding parseFloat_def dropWhile_white [OF ws ne hdr] ..
  then show ?thesis
    using r scanSigned_decimal [OF sg a b ab t] AText by simp
qed

lemma getCoords_written:
  assumes "wellWritten p" and "wellWritten q"
    and "coalesce (field o' ''lat'') (coalesce (field o' ''latitude'') (field o' ''latitud'')) = written p"
    and "coalesce (field o' ''lng'') (coalesce (field o' ''long'')
           (coalesce (field o' ''lon'') (coalesce (field o' ''longitude'') (field o' ''longitud'')))) = written q"
  shows "getCoords o'
           = (if - 90 \<le> reading p \<and> reading p \<le> 90 \<and> - 180 \<le> reading q \<and> reading q \<le> 180
              then Some (Fin (reading p), Fin (reading q)) else None)"
proof -
  have "latOf o' = Fin (reading p)" unfolding latOf_def assms(3) using assms(1) by (rule toNum_written)
  moreover have "lngOf o' = Fin (reading q)" unfolding lngOf_def assms(4) using assms(2) by (rule toNum_written)
  ultimately show ?thesis by (auto simp: getCoords_def js_gt_def)
qed

text \<open>
  C10. A coordinate field that holds a number is taken as it is. One that holds a
  string made of optional white space, an optional sign, digits, a comma and digits
  (at least one digit in all), followed by nothing or by text that starts with neither
  a digit nor an exponent mark, is read by \<open>toNum\<close> as the signed decimal number with
  the comma as decimal separator. \<open>getCoords\<close> reads both coordinates in this way,
  under whichever of their field names the record uses, and returns the pair of
  numbers when the latitude is in \<open>[-90, 90]\<close> and the longitude in \<open>[-180, 180]\<close>,
  and \<open>null\<close> otherwise. \<open>lat = "10,5"\<close> is \<open>10.5\<close>.
\<close>

theorem comma_is_decimal_separator:
  assumes "wellWritten p" and "wellWritten q"
  shows "toNum (written p) = Fin (reading p)
       \<and> toNum (written q) = Fin (reading q)
       \<and> (coalesce (field o' ''lat'') (coalesce (field o' ''latitude'') (field o' ''latitud'')) = written p
            \<and> coalesce (field o' ''lng'') (coalesce (field o' ''long'')
                (coalesce (field o' ''lon'') (coalesce (field o' ''longitude'') (field o' ''longitud'')))) = written q
          \<longrightarrow> getCoords o'
                = (if - 90 \<le> reading p \<and> reading p \<le> 90 \<and> - 180 \<le> reading q \<and> reading q \<le> 180
                   then Some (Fin (reading p), Fin (reading q)) else None))"
  using toNum_written [OF assms(1)] toNum_written [OF assms(2)] getCoords_written [OF assms]
  by blast

lemma written_facts:
  "wellWritten (AText [] [] ''10'' ''5'' [])" "wellWritten (ANumber 20)"
  "wellWritten (AText '' '' ''-'' ''12'' ''05'' [])" "wellWritten (AText [] ''-'' ''77'' ''04'' '' W'')"
  "wellWritten (AText [] ''+'' ''90'' ''5'' [])" "wellWritten (AText [] [] [] ''5'' [])"
  "written (AText [] [] ''10'' ''5'' []) = JStr ''10,5''"
  "written (AText '' '' ''-'' ''12'' ''05'' []) = JStr '' -12,05''"
  "written (AText [] ''-'' ''77'' ''04'' '' W'') = JStr ''-77,04 W''"
  "written (AText [] ''+'' ''90'' ''5'' []) = JStr ''+90,5''"
  "written (AText [] [] [] ''5'' []) = JStr '',5''"
  by code_simp+

lemma reading_facts:
  "reading (AText [] [] ''10'' ''5'' []) = 10.5"
  "reading (AText '' '' ''-'' ''12'' ''05'' []) = - 12.05"
  "reading (AText [] ''-'' ''77'' ''04'' '' W'') = - 77.04"
  "reading (AText [] ''+'' ''90'' ''5'' []) = 90.5"
  "reading (AText [] [] [] ''5'' []) = 0.5"
  by (simp_all add: digitsVal_def digitVal_def)

lemma raw_facts:
  "coalesce (field [(''lat'', JStr ''10,5''), (''lng'', JNum (Fin 20))] ''lat'') x = JStr ''10,5''"
  "coalesce (field [(''lat'', JStr ''10,5''), (''lng'', JNum (Fin 20))] ''lng'') y = JNum (Fin 20)"
  "coalesce (field [(''latitud'', JStr '' -12,05''), (''long'', JStr ''-77,04 W'')] ''lat'')
     (coalesce (field [(''latitud'', JStr '' -12,05''), (''long'', JStr ''-77,04 W'')] ''latitude'')
        (field [(''latitud'', JStr '' -12,05''), (''long'', JStr ''-77,04 W'')] ''latitud'')) = JStr '' -12,05''"
  "coalesce (field [(''latitud'', JStr '' -12,05''), (''long'', JStr ''-77,04 W'')] ''lng'')
     (coalesce (field [(''latitud'', JStr '' -12,05''), (''long'', JStr ''-77,04 W'')] ''long'') z) = JStr ''-77,04 W''"
  "coalesce (field [(''lat'', JStr ''+90,5''), (''lng'', JStr '',5'')] ''lat'') x = JStr ''+90,5''"
  "coalesce (field [(''lat'', JStr ''+90,5''), (''lng'', JStr '',5'')] ''lng'') y = JStr '',5''"
  by (simp_all add: coalesce_def field_def nullish_def)

theorem comma_is_decimal_separator_witness:
  "wellWritten (AText [] [] ''10'' ''5'' []) \<and> wellWritten (ANumber 20)
   \<and> wellWritten (AText '' '' ''-'' ''12'' ''05'' []) \<and> wellWritten (AText [] ''-'' ''77'' ''04'' '' W'')
   \<and> wellWritten (AText [] ''+'' ''90'' ''5'' []) \<and> wellWritten (AText [] [] [] ''5'' [])
   \<and> toNum (JStr ''10,5'') = Fin 10.5
   \<and> getCoords [(''lat'', JStr ''10,5''), (''lng'', JNum (Fin 20))] = Some (Fin 10.5, Fin 20)
   \<and> toNum (JStr '' -12,05'') = Fin (- 12.05)
   \<and> toNum (JStr ''-77,04 W'') = Fin (- 77.04)
   \<and> getCoords [(''latitud'', JStr '' -12,05''), (''long'', JStr ''-77,04 W'')] = Some (Fin (- 12.05), Fin (- 77.04))
   \<and> toNum (JStr ''+90,5'') = Fin 90.5
   \<and> toNum (JStr '',5'') = Fin 0.5
   \<and> getCoords [(''lat'', JStr ''+90,5''), (''lng'', JStr '',5'')] = None"
proof -
  have 1: "toNum (JStr ''10,5'') = Fin 10.5
           \<and> getCoords [(''lat'', JStr ''10,5''), (''lng'', JNum (Fin 20))] = Some (Fin 10.5, Fin 20)"
    using comma_is_decimal_separator [OF written_facts(1) written_facts(2),
            of "[(''lat'', JStr ''10,5''), (''lng'', JNum (Fin 20))]"]
    unfolding written_facts reading_facts raw_facts by simp
  have 2: "toNum (JStr '' -12,05'') = Fin (- 12.05) \<and> toNum (JStr ''-77,04 W'') = Fin (- 77.04)
           \<and> getCoords [(''latitud'', JStr '' -12,05''), (''long'', JStr ''-77,04 W'')]
               = Some (Fin (- 12.05), Fin (- 77.04))"
    using comma_is_decimal_separator [OF written_facts(3) written_facts(4),
            of "[(''latitud'', JStr '' -12,05''), (''long'', JStr ''-77,04 W'')]"]
    unfolding written_facts reading_facts raw_facts by simp
  have 3: "toNum (JStr ''+90,5'') = Fin 90.5 \<and> toNum (JStr '',5'') = Fin 0.5
           \<and> getCoords [(''lat'', JStr ''+90,5''), (''lng'', JStr '',5'')] = None"
    using comma_is_decimal_separator [OF written_facts(5) written_facts(6),
            of "[(''lat'', JStr ''+90,5''), (''lng'', JStr '',5'')]"]
    unfolding written_facts reading_facts raw_facts by simp
  show ?thesis using 1 2 3 written_facts(1-6) by blast
qed

lemma js_range:
  "(\<not> js_isNaN a \<and> \<not> js_lt a (Fin lo) \<and> \<not> js_gt a (Fin hi)) = (\<exists>x. a = Fin x \<and> lo \<le> x \<and> x \<le> hi)"
  by (cases a) (auto simp: js_gt_def)

lemma getCoords_None_iff:
  "(getCoords o' = None)
     = (\<not> ((\<exists>x. latOf o' = Fin x \<and> - 90 \<le> x \<and> x \<le> 90) \<and> (\<exists>y. lngOf o' = Fin y \<and> - 180 \<le> y \<and> y \<le> 180)))"
  using js_range [of "latOf o'" "- 90" 90] js_range [of "lngOf o'" "- 180" 180]
  by (auto simp: getCoords_def)

lemma latestStep_no_coords: "getCoords (coordsArgS (recData r)) = None \<Longrightarrow> latestStep h ui latest r = latest"
  by (simp add: latestStep_def)

lemma latOf_officerAt: "latOf (coordsArgS (recData (officerAt (JNum a) b))) = a"
  by (simp add: officerAt_def coordsArgS_def coordsArgA_def latOf_def field_def coalesce_def nullish_def)

lemma lngOf_officerAt: "lngOf (coordsArgS (recData (officerAt a (JNum b)))) = b"
  by (simp add: officerAt_def coordsArgS_def coordsArgA_def lngOf_def field_def coalesce_def nullish_def)

lemma latOf_officerAt_abc: "latOf (coordsArgS (recData (officerAt (JStr ''abc'') b))) = NaN"
  by (simp add: officerAt_def coordsArgS_def coordsArgA_def latOf_def field_def coalesce_def nullish_def
      parseFloat_def scanSigned_def scanUnsigned_def isWhiteSpace_def isDigit_def)

text \<open>
  C8. A record whose coerced latitude is not a number in \<open>[-90, 90]\<close>, or whose coerced
  longitude is not a number in \<open>[-180, 180]\<close>, has no coordinates (\<open>getCoords\<close> returns
  \<open>null\<close>), leaves the latest map as it is, and can be removed from the cache without
  changing anything a rebuild shows: the latest map, the markers, the officer count and
  the chips of every sector.
\<close>

theorem invalid_coords_excluded:
  assumes "\<not> (\<exists>x. latOf (coordsArgS (recData r)) = Fin x \<and> - 90 \<le> x \<and> x \<le> 90)
           \<or> \<not> (\<exists>y. lngOf (coordsArgS (recData r)) = Fin y \<and> - 180 \<le> y \<and> y \<le> 180)"
  shows "getCoords (coordsArgS (recData r)) = None
       \<and> latestStep h ui latest r = latest
       \<and> serenosView h ui st (before @ (k, r) # after) = serenosView h ui st (before @ after)"
proof -
  have n: "getCoords (coordsArgS (recData r)) = None"
    using assms by (auto simp: getCoords_None_iff)
  have "\<And>l. latestStep h ui l r = l" using n by (rule latestStep_no_coords)
  then show ?thesis using n by (simp add: serenosView_def)
qed

theorem invalid_coords_excluded_witness:
  "latOf (coordsArgS (recData (officerAt (JNum (Fin 91)) (JNum (Fin 0))))) = Fin 91
   \<and> lngOf (coordsArgS (recData (officerAt (JNum (Fin 0)) (JNum (Fin 181))))) = Fin 181
   \<and> latOf (coordsArgS (recData (officerAt (JStr ''abc'') (JNum (Fin 0))))) = NaN
   \<and> getCoords (coordsArgS (recData (officerAt (JNum (Fin 91)) (JNum (Fin 0))))) = None
   \<and> getCoords (coordsArgS (recData (officerAt (JNum (Fin 0)) (JNum (Fin 181))))) = None
   \<and> getCoords (coordsArgS (recData (officerAt (JStr ''abc'') (JNum (Fin 0))))) = None
   \<and> serenosView host0 ui0 noGeofences
        [(''a'', officerAt (JNum (Fin 91)) (JNum (Fin 0))), (''b'', officerAt (JNum (Fin 0)) (JNum (Fin 181))),
         (''c'', officerAt (JStr ''abc'') (JNum (Fin 0)))]
       = serenosView host0 ui0 noGeofences []"
  using invalid_coords_excluded [of "officerAt (JNum (Fin 91)) (JNum (Fin 0))" host0 ui0 "[]" noGeofences "[]" "''a''"
            "[(''b'', officerAt (JNum (Fin 0)) (JNum (Fin 181))), (''c'', officerAt (JStr ''abc'') (JNum (Fin 0)))]"]
        invalid_coords_excluded [of "officerAt (JNum (Fin 0)) (JNum (Fin 181))" host0 ui0 "[]" noGeofences "[]" "''b''"
            "[(''c'', officerAt (JStr ''abc'') (JNum (Fin 0)))]"]
        invalid_coords_excluded [of "officerAt (JStr ''abc'') (JNum (Fin 0))" host0 ui0 "[]" noGeofences "[]" "''c''" "[]"]
  by (simp add: latOf_officerAt lngOf_officerAt latOf_officerAt_abc)

subsection \<open>Alerts\<close>

lemma js_le_Fin: "js_le (Fin a) (Fin b) = (a \<le> b)"
  by (auto simp: js_le_def)

lemma js_ge_Fin: "js_ge (Fin a) (Fin b) = (b \<le> a)"
  by (auto simp: js_le_def js_ge_def)

lemma include_active:
  "includeAlerta ''active'' now r whn = (\<exists>t. whn = DateMs t \<and> now - t \<le> 30 * 60 * 1000)"
proof (cases whn)
  case InvalidDate
  then show ?thesis by (simp add: includeAlerta_def js_le_def js_sub_def)
next
  case (DateMs t)
  have "(real_of_int now - real_of_int t \<le> 1800000) = (now - t \<le> 1800000)"
    by linarith
  then show ?thesis using DateMs
    by (simp add: includeAlerta_def js_le_Fin js_sub_def THIRTY_MIN_def)
qed

lemma include_range:
  "includeAlerta ''range'' now r whn
     = (\<exists>t a b. whn = DateMs t \<and> fst r = DateMs a \<and> snd r = DateMs b \<and> a \<le> t \<and> t < b)"
proof (cases whn)
  case InvalidDate
  then show ?thesis by (simp add: includeAlerta_def js_le_def js_ge_def)
next
  case t: (DateMs t)
  show ?thesis
  proof (cases "fst r")
    case InvalidDate
    then show ?thesis using t by (simp add: includeAlerta_def js_le_def js_ge_def)
  next
    case a: (DateMs a)
    show ?thesis
    proof (cases "snd r")
      case InvalidDate
      then show ?thesis using t a by (simp add: includeAlerta_def)
    next
      case (DateMs b)
      then show ?thesis using t a by (simp add: includeAlerta_def js_ge_Fin)
    qed
  qed
qed

lemma include_other:
  "mode \<noteq> ''active'' \<Longrightarrow> mode \<noteq> ''range'' \<Longrightarrow> includeAlerta mode now r whn = False"
  by (cases whn) (auto simp: includeAlerta_def js_ge_Fin js_ge_def js_le_def)

lemma alertasLoop_capa:
  "capaAlertas (alertasLoop mode now r docs v)
     = capaAlertas v @ concat (map (\<lambda>kr. markerOf mode now r (snd kr)) docs)"
  by (induction docs arbitrary: v) (auto simp: markerOf_def split: option.splits)

lemma alertasLoop_visibles:
  "visibles (alertasLoop mode now r docs v)
     = visibles v + length (concat (map (\<lambda>kr. markerOf mode now r (snd kr)) docs))"
  by (induction docs arbitrary: v) (auto simp: markerOf_def split: option.splits)

lemma markerOf_member:
  "(x \<in> set (markerOf mode now r rec))
     = (\<exists>c. getCoords (coordsArgA (alertaData rec)) = Some c
            \<and> x = (alertaId rec, c, mode = ''active'') \<and> includeAlerta mode now r (alertaWhen rec))"
  by (cases "getCoords (coordsArgA (alertaData rec))") (simp_all add: markerOf_def)

lemma alertasLoop_member:
  assumes "(k, rec) \<in> set docs" and "getCoords (coordsArgA (alertaData rec)) = Some c"
    and "distinct (map (\<lambda>kr. alertaId (snd kr)) docs)"
  shows "((alertaId rec, c, mode = ''active'')
            \<in> set (capaAlertas (alertasLoop mode now r docs \<lparr>capaAlertas = [], visibles = 0\<rparr>)))
           = includeAlerta mode now r (alertaWhen rec)"
proof
  assume "(alertaId rec, c, mode = ''active'')
            \<in> set (capaAlertas (alertasLoop mode now r docs \<lparr>capaAlertas = [], visibles = 0\<rparr>))"
  then obtain kr where kr: "kr \<in> set docs"
      and m: "(alertaId rec, c, mode = ''active'') \<in> set (markerOf mode now r (snd kr))"
    by (auto simp: alertasLoop_capa)
  have same: "alertaId (snd kr) = alertaId (snd (k, rec))" using m by (auto simp: markerOf_member)
  have "inj_on (\<lambda>kr. alertaId (snd kr)) (set docs)" using assms(3) by (simp add: distinct_map)
  from inj_onD [OF this same kr assms(1)] have "snd kr = rec" by simp
  then show "includeAlerta mode now r (alertaWhen rec)" using m by (auto simp: markerOf_member)
next
  assume "includeAlerta mode now r (alertaWhen rec)"
  then have "(alertaId rec, c, mode = ''active'') \<in> set (markerOf mode now r (snd (k, rec)))"
    using assms(2) by (simp add: markerOf_member)
  then show "(alertaId rec, c, mode = ''active'')
            \<in> set (capaAlertas (alertasLoop mode now r docs \<lparr>capaAlertas = [], visibles = 0\<rparr>))"
    using assms(1) unfolding alertasLoop_capa by (simp del: snd_conv) blast
qed

lemma getCoords_futureAlert: "getCoords (coordsArgA (alertaData futureAlert)) = Some (Fin 1, Fin 2)"
  by (simp add: futureAlert_def coordsArgA_def getCoords_def latOf_def lngOf_def field_def coalesce_def
        nullish_def js_gt_def)

text \<open>
  C5, as the code has it. A rebuild of the alerts panel completes; the chip shows the
  number of markers on the layer; and a cached record with valid coordinates has its
  marker there exactly when, in the mode "active", its timestamp is a valid date not
  older than 30 minutes before the clock (\<open>now - t \<le> 30 min\<close>; a timestamp later than
  the clock qualifies), and, in the mode "range", timestamp and interval are valid
  dates with \<open>start \<le> t < end\<close>. In any other mode nothing is shown. The ids of the
  cache are its keys, hence distinct.
\<close>

theorem alert_inclusion:
  assumes "(k, rec) \<in> set docsA" and "getCoords (coordsArgA (alertaData rec)) = Some c"
    and "distinct (map (\<lambda>kr. alertaId (snd kr)) docsA)"
  shows "\<exists>v s. rebuildAlertas run listeners w mode now r docsA = Inr (v, s)
           \<and> visibles v = length (capaAlertas v)
           \<and> ((alertaId rec, c, mode = ''active'') \<in> set (capaAlertas v))
               = (if mode = ''active'' then (\<exists>t. alertaWhen rec = DateMs t \<and> now - t \<le> 30 * 60 * 1000)
                  else if mode = ''range''
                       then (\<exists>t a b. alertaWhen rec = DateMs t \<and> fst r = DateMs a \<and> snd r = DateMs b
                                      \<and> a \<le> t \<and> t < b)
                       else False)"
proof -
  let ?v = "alertasLoop mode now r docsA \<lparr>capaAlertas = [], visibles = 0\<rparr>"
  have 1: "rebuildAlertas run listeners w mode now r docsA = Inr (?v, listeners, worldAfter run listeners w)"
    by (simp add: rebuildAlertas_def emit_total)
  have 2: "visibles ?v = length (capaAlertas ?v)"
    by (simp add: alertasLoop_capa alertasLoop_visibles)
  have 3: "((alertaId rec, c, mode = ''active'') \<in> set (capaAlertas ?v))
             = includeAlerta mode now r (alertaWhen rec)"
    using assms by (rule alertasLoop_member)
  have 4: "includeAlerta mode now r (alertaWhen rec)
             = (if mode = ''active'' then (\<exists>t. alertaWhen rec = DateMs t \<and> now - t \<le> 30 * 60 * 1000)
                  else if mode = ''range''
                       then (\<exists>t a b. alertaWhen rec = DateMs t \<and> fst r = DateMs a \<and> snd r = DateMs b
                                      \<and> a \<le> t \<and> t < b)
                       else False)"
    using include_active [of now r "alertaWhen rec"] include_range [of now r "alertaWhen rec"]
      include_other [of mode now r "alertaWhen rec"]
    by (cases "mode = ''active''"; cases "mode = ''range''") simp_all
  show ?thesis using 1 2 3 4 by blast
qed

text \<open>
  The claim as stated bounds the timestamp by the clock from above. An alert dated one
  second after the clock reading 1000 is outside the trailing 30 minutes so bounded, and
  it is shown and counted.
\<close>

theorem future_alert_is_active:
  "alertaWhen futureAlert = DateMs 2000
   \<and> \<not> ((1000::int) - 30 * 60 * 1000 \<le> 2000 \<and> (2000::int) \<le> 1000)
   \<and> getCoords (coordsArgA (alertaData futureAlert)) = Some (Fin 1, Fin 2)
   \<and> includeAlerta ''active'' 1000 (InvalidDate, InvalidDate) (alertaWhen futureAlert)
   \<and> alertasLoop ''active'' 1000 (InvalidDate, InvalidDate) [(''a1'', futureAlert)] \<lparr>capaAlertas = [], visibles = 0\<rparr>
       = \<lparr>capaAlertas = [(''a1'', (Fin 1, Fin 2), True)], visibles = 1\<rparr>"
  by (simp add: getCoords_futureAlert include_active) (simp add: futureAlert_def)

theorem alert_inclusion_witness:
  "(''a1'', futureAlert) \<in> set [(''a1'', futureAlert)]
   \<and> getCoords (coordsArgA (alertaData futureAlert)) = Some (Fin 1, Fin 2)
   \<and> distinct (map (\<lambda>kr. alertaId (snd kr)) [(''a1'', futureAlert)])
   \<and> (\<exists>v s. rebuildAlertas (\<lambda>cb w. Inr w) ([] :: unit list) () ''active'' 2500 (InvalidDate, InvalidDate)
                [(''a1'', futureAlert)] = Inr (v, s)
          \<and> visibles v = length (capaAlertas v)
          \<and> (''a1'', (Fin 1, Fin 2), True) \<in> set (capaAlertas v))
   \<and> (\<exists>v s. rebuildAlertas (\<lambda>cb w. Inr w) ([] :: unit list) () ''range'' 2500 (DateMs 1000, DateMs 3000)
                [(''a1'', futureAlert)] = Inr (v, s)
          \<and> visibles v = length (capaAlertas v)
          \<and> (''a1'', (Fin 1, Fin 2), False) \<in> set (capaAlertas v))
   \<and> (\<exists>v s. rebuildAlertas (\<lambda>cb w. Inr w) ([] :: unit list) () ''range'' 2500 (DateMs 1000, DateMs 2000)
                [(''a1'', futureAlert)] = Inr (v, s)
          \<and> visibles v = length (capaAlertas v)
          \<and> (''a1'', (Fin 1, Fin 2), False) \<notin> set (capaAlertas v))"
proof -
  have m: "(''a1'', futureAlert) \<in> set [(''a1'', futureAlert)]" by simp
  have d: "distinct (map (\<lambda>kr. alertaId (snd kr)) [(''a1'', futureAlert)])" by simp
  have i: "alertaId futureAlert = ''a1''" and t: "alertaWhen futureAlert = DateMs 2000"
    by (simp_all add: futureAlert_def)
  show ?thesis
    using alert_inclusion [OF m getCoords_futureAlert d, of "\<lambda>cb w. Inr w" "[] :: unit list" "()" "''active''" 2500 "(InvalidDate, InvalidDate)"]
      alert_inclusion [OF m getCoords_futureAlert d, of "\<lambda>cb w. Inr w" "[] :: unit list" "()" "''range''" 2500 "(DateMs 1000, DateMs 3000)"]
      alert_inclusion [OF m getCoords_futureAlert d, of "\<lambda>cb w. Inr w" "[] :: unit list" "()" "''range''" 2500 "(DateMs 1000, DateMs 2000)"]
    by (simp add: getCoords_futureAlert i t)
qed

subsection \<open>Timestamps\<close>

lemma getWhenS_default:
  assumes "\<not> hasToDate (field d ''timestamp'')" and "secondsOf (field d ''timestamp'') = None"
    and "parsedString h (field d ''timestamp'') = None" and "\<not> truthy (field d ''fecha'')"
  shows "getWhenS h d = Inr epoch"
  using assms by (simp add: getWhenS_def)

lemma getWhenA_default:
  assumes "\<not> hasToDate (field d ''createdAt'')" and "secondsOf (field d ''createdAt'') = None"
    and "parsedString h (field d ''createdAt'') = None" and "\<forall>n. field d ''createdAt'' \<noteq> JNum n"
  shows "getWhenA h d = Inr epoch"
  using assms by (cases "field d ''createdAt''") (simp_all add: getWhenA_def)

text \<open>
  C6, as the code has it. Let the timestamp field have no truthy \<open>toDate\<close>, no numeric
  \<open>seconds\<close>, and not be a string that \<open>new Date\<close> reads as a valid date. Then
  \<open>getWhenS\<close> returns the epoch, without throwing, when the document has no truthy
  \<open>fecha\<close>; and \<open>getWhenA\<close> returns the epoch, without throwing, when the field is not
  a number either.
\<close>

theorem unparsed_timestamp_is_epoch:
  assumes "\<not> hasToDate t" and "secondsOf t = None" and "parsedString h t = None"
  shows "(field d ''timestamp'' = t \<and> \<not> truthy (field d ''fecha'') \<longrightarrow> getWhenS h d = Inr epoch)
       \<and> (field d ''createdAt'' = t \<and> (\<forall>n. t \<noteq> JNum n) \<longrightarrow> getWhenA h d = Inr epoch)"
  using assms getWhenS_default [of d h] getWhenA_default [of d h] by auto

lemma parsedString_garbage: "parsedString host0 (JStr ''ayer'') = None"
  by (simp add: parsedString_def host0_def)

theorem unparsed_timestamp_is_epoch_witness:
  "\<not> hasToDate (JStr ''ayer'') \<and> secondsOf (JStr ''ayer'') = None \<and> parsedString host0 (JStr ''ayer'') = None
   \<and> field [(''timestamp'', JStr ''ayer'')] ''timestamp'' = JStr ''ayer''
   \<and> \<not> truthy (field [(''timestamp'', JStr ''ayer'')] ''fecha'')
   \<and> getWhenS host0 [(''timestamp'', JStr ''ayer'')] = Inr (DateMs 0)
   \<and> field [(''createdAt'', JStr ''ayer'')] ''createdAt'' = JStr ''ayer''
   \<and> getWhenA host0 [(''createdAt'', JStr ''ayer'')] = Inr (DateMs 0)"
  using unparsed_timestamp_is_epoch [of "JStr ''ayer''" host0 "[(''timestamp'', JStr ''ayer'')]"]
        unparsed_timestamp_is_epoch [of "JStr ''ayer''" host0 "[(''createdAt'', JStr ''ayer'')]"]
  by (simp add: hasToDate_def secondsOf_def parsedString_garbage field_def epoch_def)

lemma stringToNumber_abc: "stringToNumber ''abc'' = NaN"
  by (simp add: stringToNumber_def trim_def isWhiteSpace_def nonDecimalLiteral_def scanSigned_def
        scanUnsigned_def isDigit_def)

lemma fecha_abc_invalid: "getWhenS h [(''fecha'', JStr ''abc'')] = Inr InvalidDate"
  by (simp add: getWhenS_def field_def hasToDate_def secondsOf_def parsedString_def dateFromFecha_def
        stringToNumber_abc nthNum_def)

text \<open>
  The claim as stated fails for \<open>getWhenS\<close> on a document without timestamp whose
  \<open>fecha\<close> is not a date: \<open>new Date(yy, mm-1, dd)\<close> is built from it all the same, and
  it is an invalid date, not the epoch. This holds for every host. And a timestamp
  field that is a map with a truthy field \<open>toDate\<close> is no native timestamp, yet the
  code calls it, which throws.
\<close>

lemma toDate_field_throws:
  "getWhenA h [(''createdAt'', JObj [(''toDate'', JStr ''x'')])] = Inl TypeError"
  by (simp add: getWhenA_def field_def hasToDate_def callToDate_def)

theorem unparsed_timestamp_not_epoch:
  "hasToDate (field [(''fecha'', JStr ''abc'')] ''timestamp'') = False
   \<and> secondsOf (field [(''fecha'', JStr ''abc'')] ''timestamp'') = None
   \<and> parsedString host0 (field [(''fecha'', JStr ''abc'')] ''timestamp'') = None
   \<and> stringToNumber ''abc'' = NaN
   \<and> getWhenS host0 [(''fecha'', JStr ''abc'')] = Inr InvalidDate
   \<and> Inr InvalidDate \<noteq> (Inr epoch :: js_error + jsdate)
   \<and> getWhenA host0 [(''createdAt'', JObj [(''toDate'', JStr ''x'')])] = Inl TypeError"
  by (simp add: fecha_abc_invalid stringToNumber_abc field_def hasToDate_def secondsOf_def
        parsedString_def epoch_def toDate_field_throws [unfolded field_def])

subsection \<open>Point location\<close>

lemma pointInRingLoop_hits:
  assumes "k < length ring" and "i \<le> k" and "j = prevIndex ring i"
    and "onSegment lng lat (snd (ring ! k)) (fst (ring ! k))
           (snd (ring ! prevIndex ring k)) (fst (ring ! prevIndex ring k))"
  shows "pointInRingLoop lat lng ring i j inside"
  using assms(2,3)
proof (induction "k - i" arbitrary: i j inside)
  case 0
  then have "i = k" by simp
  then show ?case using assms(1,4) 0 by (subst pointInRingLoop.simps) simp
next
  case (Suc d)
  then have lt: "i < k" by simp
  have j': "i = prevIndex ring (Suc i)" by (simp add: prevIndex_def)
  have "d = k - Suc i" using Suc.hyps(2) by simp
  from Suc.hyps(1) [OF this _ j'] lt
  have "\<And>b. pointInRingLoop lat lng ring (Suc i) i b" by simp
  then show ?case using lt assms(1) by (subst pointInRingLoop.simps) simp
qed

lemma pointInRing_onSegment:
  assumes "k < length ring"
    and "onSegment lng lat (snd (ring ! k)) (fst (ring ! k))
           (snd (ring ! prevIndex ring k)) (fst (ring ! prevIndex ring k))"
  shows "pointInRing lat lng ring"
  unfolding pointInRing_def
  by (rule pointInRingLoop_hits [OF assms(1) _ _ assms(2)]) (simp_all add: prevIndex_def)

lemma locate_first:
  assumes "candidate byId lat lng k poly = Some g"
  shows "locate byId lat lng (before @ (k, poly) # after) \<noteq> None
       \<and> (list_all (\<lambda>kp. candidate byId lat lng (fst kp) (snd kp) = None) before
            \<longrightarrow> locate byId lat lng (before @ (k, poly) # after) = Some (k, g))"
  using assms by (induction before) (auto split: option.splits)

lemma drawAll_sector4: "drawAll noGeofences [sector4] 0 = Inr sector4State"
  by (simp add: drawOneGeofence_def parsePath_sector4 closePath_def js_neq_def defaultColors_def
        noGeofences_def sector4State_def Let_def)
     (simp add: sector4_def)

lemma rings_sector4State:
  "ringsOf (getLatLngs (L_polygon [(Fin 0, Fin 0), (Fin 0, Fin 1), (Fin 1, Fin 1), (Fin 1, Fin 0), (Fin 0, Fin 0)] c))
     = [[(Fin 0, Fin 0), (Fin 0, Fin 1), (Fin 1, Fin 1), (Fin 1, Fin 0)]]"
  by (simp add: L_polygon_def ringsOf_def dropClosing_def llEquals_def js_sub_def js_max_def js_le_def)

lemma bounds_sector4State:
  "getBounds (L_polygon [(Fin 0, Fin 0), (Fin 0, Fin 1), (Fin 1, Fin 1), (Fin 1, Fin 0), (Fin 0, Fin 0)] c)
     = \<lparr>south = Fin 0, west = Fin 0, north = Fin 1, east = Fin 1\<rparr>"
  by (simp add: L_polygon_def boundsOf_def extendBounds_def js_min_def js_max_def)

text \<open>
  C1, as the code has it. A point that passes \<open>onSegment\<close> for one segment of a ring is
  inside the ring for \<open>pointInRing\<close>. When the ring has at least 3 vertices and belongs
  to a registered polygon whose id is recorded and whose bounds contain the point,
  \<open>sectorOfPoint\<close> returns a geofence, not \<open>null\<close>: the first one, in the order of the
  layers, whose bounds contain the point and one of whose rings has it inside. So it
  returns that very polygon when no layer before it qualifies.
\<close>

theorem boundary_point_is_inside:
  assumes "3 \<le> length ring" and "i < length ring"
    and "onSegment lng lat (snd (ring ! i)) (fst (ring ! i))
           (snd (ring ! prevIndex ring i)) (fst (ring ! prevIndex ring i))"
  shows "pointInRing lat lng ring
       \<and> (geofenceLayers st = before @ (k, poly) # after
            \<and> ring \<in> set (ringsOf (getLatLngs poly))
            \<and> contains (getBounds poly) (lat, lng)
            \<and> map_of (geofenceById st) k = Some g
          \<longrightarrow> sectorOfPoint st lat lng \<noteq> None
              \<and> (list_all (\<lambda>kp. candidate (geofenceById st) lat lng (fst kp) (snd kp) = None) before
                   \<longrightarrow> sectorOfPoint st lat lng = Some (k, g)))"
proof -
  have p: "pointInRing lat lng ring" using assms(2,3) by (rule pointInRing_onSegment)
  have c: "candidate (geofenceById st) lat lng k poly = Some g"
    if "ring \<in> set (ringsOf (getLatLngs poly))" "contains (getBounds poly) (lat, lng)"
       "map_of (geofenceById st) k = Some g"
    using that p assms(1) by (auto simp: candidate_def list_ex_iff)
  show ?thesis using p c locate_first [of "geofenceById st" lat lng k poly g before after]
    by (auto simp: sectorOfPoint_def)
qed

lemma onSegment_mid:
  "onSegment (Fin (1/2)) (Fin 0) (Fin 1) (Fin 0) (Fin 0) (Fin 0)"
  by (simp add: onSegment_def js_sub_def js_gt_def js_le_def eps_def)

lemma layers_sector4State:
  "geofenceLayers sector4State
     = [] @ (''g1'', L_polygon [(Fin 0, Fin 0), (Fin 0, Fin 1), (Fin 1, Fin 1), (Fin 1, Fin 0), (Fin 0, Fin 0)] ''#ef4444'') # []"
  by (simp add: sector4State_def)

lemma byId_sector4State: "map_of (geofenceById sector4State) ''g1'' = Some (sector4\<lparr>ucolor := ''#ef4444''\<rparr>)"
  by (simp add: sector4State_def)

theorem boundary_point_is_inside_witness:
  "3 \<le> length [(Fin 0, Fin 0), (Fin 0, Fin 1), (Fin 1, Fin 1), (Fin 1, Fin 0)]
   \<and> (1::nat) < length [(Fin 0, Fin 0), (Fin 0, Fin 1), (Fin 1, Fin 1), (Fin 1, Fin 0)]
   \<and> onSegment (Fin (1/2)) (Fin 0) (Fin 1) (Fin 0) (Fin 0) (Fin 0)
   \<and> drawAll noGeofences [sector4] 0 = Inr sector4State
   \<and> pointInRing (Fin 0) (Fin (1/2)) [(Fin 0, Fin 0), (Fin 0, Fin 1), (Fin 1, Fin 1), (Fin 1, Fin 0)]
   \<and> sectorOfPoint sector4State (Fin 0) (Fin (1/2)) = Some (''g1'', sector4\<lparr>ucolor := ''#ef4444''\<rparr>)"
proof -
  let ?ring = "[(Fin 0, Fin 0), (Fin 0, Fin 1), (Fin 1, Fin 1), (Fin 1, Fin (0::real))]"
  let ?poly = "L_polygon [(Fin 0, Fin 0), (Fin 0, Fin 1), (Fin 1, Fin 1), (Fin 1, Fin 0), (Fin 0, Fin 0)] ''#ef4444''"
  have seg: "onSegment (Fin (1/2)) (Fin 0) (snd (?ring ! 1)) (fst (?ring ! 1))
               (snd (?ring ! prevIndex ?ring 1)) (fst (?ring ! prevIndex ?ring 1))"
    by (simp add: prevIndex_def onSegment_mid)
  have inb: "contains (getBounds ?poly) (Fin 0, Fin (1/2))"
    by (simp add: bounds_sector4State contains_def js_ge_def js_le_def)
  have rng: "?ring \<in> set (ringsOf (getLatLngs ?poly))"
    by (simp add: rings_sector4State)
  from boundary_point_is_inside [of ?ring 1 "Fin (1/2)" "Fin 0" sector4State "[]" "''g1''" ?poly "[]"
          "sector4\<lparr>ucolor := ''#ef4444''\<rparr>", OF _ _ seg]
  have "pointInRing (Fin 0) (Fin (1/2)) ?ring
        \<and> sectorOfPoint sector4State (Fin 0) (Fin (1/2)) = Some (''g1'', sector4\<lparr>ucolor := ''#ef4444''\<rparr>)"
    using inb rng layers_sector4State byId_sector4State by simp
  then show ?thesis by (simp add: onSegment_mid drawAll_sector4 del: drawAll.simps)
qed

text \<open>
  The claim as stated fails in two ways. West of the unit square by \<open>1e-11\<close>, at
  latitude 0, a point passes \<open>onSegment\<close> for the edge that ends in the first vertex,
  \<open>pointInRing\<close> holds, and \<open>sectorOfPoint\<close> returns \<open>null\<close>, because the bounds are
  tested first. And a point on the edge that two adjacent sectors share is on the
  boundary of the eastern one, whose ring has it inside, while \<open>sectorOfPoint\<close> returns
  the western one, which comes first.
\<close>

lemma onSegment_near:
  "onSegment (Fin (- tiny)) (Fin 0) (Fin 0) (Fin 0) (Fin 0) (Fin 1)"
  by (simp add: onSegment_def js_sub_def js_gt_def js_le_def eps_def tiny_def)

lemma drawAll_adjacent: "drawAll noGeofences [sectorWest, sectorEast] 0 = Inr adjacentSectors"
  by code_simp

lemma shared_edge:
  "onSegment (Fin 1) (Fin (1/2)) (Fin 1) (Fin 0) (Fin 1) (Fin 1)"
  "pointInRing (Fin (1/2)) (Fin 1) [(Fin 0, Fin 1), (Fin 0, Fin 2), (Fin 1, Fin 2), (Fin 1, Fin 1)]"
  "sectorOfPoint adjacentSectors (Fin (1/2)) (Fin 1) = Some (''w'', sectorWest\<lparr>ucolor := ''#ef4444''\<rparr>)"
  by code_simp+

theorem boundary_point_not_that_polygon:
  "[(Fin 0, Fin 0), (Fin 0, Fin 1), (Fin 1, Fin 1), (Fin 1, Fin 0)] ! 0 = (Fin 0, Fin 0)
   \<and> [(Fin 0, Fin 0), (Fin 0, Fin 1), (Fin 1, Fin 1), (Fin 1, Fin 0)]
        ! prevIndex [(Fin 0, Fin 0), (Fin 0, Fin 1), (Fin 1, Fin 1), (Fin 1, Fin (0::real))] 0 = (Fin 1, Fin 0)
   \<and> onSegment (Fin (- tiny)) (Fin 0) (Fin 0) (Fin 0) (Fin 0) (Fin 1)
   \<and> pointInRing (Fin 0) (Fin (- tiny)) [(Fin 0, Fin 0), (Fin 0, Fin 1), (Fin 1, Fin 1), (Fin 1, Fin 0)]
   \<and> drawAll noGeofences [sector4] 0 = Inr sector4State
   \<and> ringsOf (getLatLngs (snd (hd (geofenceLayers sector4State))))
       = [[(Fin 0, Fin 0), (Fin 0, Fin 1), (Fin 1, Fin 1), (Fin 1, Fin 0)]]
   \<and> sectorOfPoint sector4State (Fin 0) (Fin (- tiny)) = None
   \<and> drawAll noGeofences [sectorWest, sectorEast] 0 = Inr adjacentSectors
   \<and> ringsOf (getLatLngs (snd (geofenceLayers adjacentSectors ! 1)))
       = [[(Fin 0, Fin 1), (Fin 0, Fin 2), (Fin 1, Fin 2), (Fin 1, Fin 1)]]
   \<and> onSegment (Fin 1) (Fin (1/2)) (Fin 1) (Fin 0) (Fin 1) (Fin 1)
   \<and> pointInRing (Fin (1/2)) (Fin 1) [(Fin 0, Fin 1), (Fin 0, Fin 2), (Fin 1, Fin 2), (Fin 1, Fin 1)]
   \<and> sectorOfPoint adjacentSectors (Fin (1/2)) (Fin 1) = Some (''w'', sectorWest\<lparr>ucolor := ''#ef4444''\<rparr>)
   \<and> ''w'' \<noteq> ''e''"
proof -
  have "pointInRing (Fin 0) (Fin (- tiny)) [(Fin 0, Fin 0), (Fin 0, Fin 1), (Fin 1, Fin 1), (Fin 1, Fin 0)]"
    by (rule pointInRing_onSegment [of 0]) (simp_all add: prevIndex_def onSegment_near)
  moreover have "sectorOfPoint sector4State (Fin 0) (Fin (- tiny)) = None"
    by (simp add: sectorOfPoint_def sector4State_def candidate_def bounds_sector4State contains_def
          js_ge_def js_le_def tiny_def)
  moreover have "ringsOf (getLatLngs (snd (hd (geofenceLayers sector4State))))
       = [[(Fin 0, Fin 0), (Fin 0, Fin 1), (Fin 1, Fin 1), (Fin 1, Fin 0)]]"
    by (simp add: sector4State_def rings_sector4State)
  moreover have "ringsOf (getLatLngs (snd (geofenceLayers adjacentSectors ! 1)))
       = [[(Fin 0, Fin 1), (Fin 0, Fin 2), (Fin 1, Fin 2), (Fin 1, Fin 1)]]"
    by code_simp
  ultimately show ?thesis
    by (simp add: prevIndex_def onSegment_near drawAll_sector4 drawAll_adjacent shared_edge
          del: drawAll.simps)
qed

subsection \<open>Sector numbers as sort keys\<close>

lemma cmp_positive:
  "\<not> js_isNaN a \<Longrightarrow> \<not> js_isNaN b \<Longrightarrow> js_gt (js_sub a b) (Fin 0) = js_lt b a"
  by (cases a; cases b) (auto simp: js_sub_def js_gt_def)

lemma js_lt_asym: "js_lt a b \<Longrightarrow> \<not> js_lt b a"
  by (cases a; cases b) auto

lemma js_le_trans:
  "\<not> js_isNaN a \<Longrightarrow> \<not> js_isNaN b \<Longrightarrow> \<not> js_isNaN c \<Longrightarrow> \<not> js_lt b a \<Longrightarrow> \<not> js_lt c b \<Longrightarrow> \<not> js_lt c a"
  by (cases a; cases b; cases c) auto

lemma sorted_insertBy:
  assumes "\<not> js_isNaN (f x)" and "\<forall>y \<in> set ys. \<not> js_isNaN (f y)"
    and "sorted_wrt (\<lambda>a b. \<not> js_lt (f b) (f a)) ys"
  shows "sorted_wrt (\<lambda>a b. \<not> js_lt (f b) (f a)) (insertBy (\<lambda>a b. js_sub (f a) (f b)) x ys)"
  using assms(2,3)
proof (induction ys)
  case Nil
  then show ?case by simp
next
  case (Cons y ys)
  show ?case
  proof (cases "js_lt (f y) (f x)")
    case True
    then have "\<not> js_lt (f x) (f y)" by (rule js_lt_asym)
    then show ?thesis using True Cons assms(1)
      by (auto simp: cmp_positive insertBy_set)
  next
    case False
    have "\<forall>z \<in> set ys. \<not> js_lt (f z) (f x)"
    proof
      fix z assume z: "z \<in> set ys"
      then have "\<not> js_lt (f z) (f y)" using Cons.prems(2) by simp
      then show "\<not> js_lt (f z) (f x)"
        using js_le_trans [of "f x" "f y" "f z"] False assms(1) Cons.prems(1) z by simp
    qed
    then show ?thesis using False Cons assms(1) by (simp add: cmp_positive)
  qed
qed

lemma sorted_jsSort:
  "\<forall>x \<in> set xs. \<not> js_isNaN (f x) \<Longrightarrow>
   sorted_wrt (\<lambda>a b. \<not> js_lt (f b) (f a)) (jsSort (\<lambda>a b. js_sub (f a) (f b)) xs)"
proof (induction xs)
  case Nil
  then show ?case by (simp add: jsSort_def)
next
  case (Cons x xs)
  have "sorted_wrt (\<lambda>a b. \<not> js_lt (f b) (f a)) (jsSort (\<lambda>a b. js_sub (f a) (f b)) xs)"
    using Cons by simp
  then have "sorted_wrt (\<lambda>a b. \<not> js_lt (f b) (f a))
               (insertBy (\<lambda>a b. js_sub (f a) (f b)) x (jsSort (\<lambda>a b. js_sub (f a) (f b)) xs))"
    using Cons.prems by (intro sorted_insertBy) (simp_all add: jsSort_set)
  then show ?case by (simp add: jsSort_def)
qed

lemma self_difference_not_positive: "\<not> js_gt (js_sub v v) (Fin 0)"
  by (cases v) (simp_all add: js_sub_def js_gt_def)

lemma filter_insertBy:
  "filter (\<lambda>e. f e = v) (insertBy (\<lambda>a b. js_sub (f a) (f b)) x ys)
     = (if f x = v then x # filter (\<lambda>e. f e = v) ys else filter (\<lambda>e. f e = v) ys)"
  by (induction ys) (auto simp: self_difference_not_positive)

lemma filter_jsSort:
  "filter (\<lambda>e. f e = v) (jsSort (\<lambda>a b. js_sub (f a) (f b)) xs) = filter (\<lambda>e. f e = v) xs"
  by (induction xs) (simp_all add: jsSort_def filter_insertBy)

lemma distinct_insertBy:
  "distinct (map f (insertBy cmp x ys)) = (f x \<notin> f ` set ys \<and> distinct (map f ys))"
  by (induction ys) (auto simp: insertBy_set)

lemma distinct_jsSort: "distinct (map f (jsSort cmp xs)) = distinct (map f xs)"
  by (induction xs) (simp_all add: jsSort_def distinct_insertBy jsSort_set [unfolded jsSort_def])

lemma sorted_wrt_positions:
  assumes "sorted_wrt (\<lambda>a b. \<not> js_lt (f b) (f a)) xs" and "x \<in> set xs" and "y \<in> set xs"
    and "js_lt (f x) (f y)"
  shows "\<exists>i j. i < j \<and> j < length xs \<and> xs ! i = x \<and> xs ! j = y"
proof -
  obtain i where i: "i < length xs" "xs ! i = x" using assms(2) by (auto simp: in_set_conv_nth)
  obtain j where j: "j < length xs" "xs ! j = y" using assms(3) by (auto simp: in_set_conv_nth)
  have "i \<noteq> j" using i j assms(4) by (cases "f x") auto
  moreover have "\<not> j < i"
  proof
    assume "j < i"
    then have "\<not> js_lt (f (xs ! i)) (f (xs ! j))"
      using assms(1) i(1) by (simp add: sorted_wrt_iff_nth_less)
    then show False using i j assms(4) by simp
  qed
  ultimately have "i < j" by simp
  then show ?thesis using i j by blast
qed

subsection \<open>Labels\<close>

lemma digit_cases: "d < 10 \<Longrightarrow> d = 0 \<or> d = 1 \<or> d = 2 \<or> d = 3 \<or> d = 4 \<or> d = 5 \<or> d = 6 \<or> d = 7 \<or> d = 8 \<or> d = (9::nat)"
  by arith

lemma digitChar_digit: "d < 10 \<Longrightarrow> isDigit (digitChar d) \<and> digitVal (digitChar d) = d"
  using digit_cases [of d] by (auto simp: digitChar_def isDigit_def digitVal_def)

lemma digitsVal_snoc: "digitsVal (xs @ [c]) = 10 * digitsVal xs + digitVal c"
  by (simp add: digitsVal_def)

lemma decimal_digits: "decimal n \<noteq> [] \<and> list_all isDigit (decimal n) \<and> digitsVal (decimal n) = n"
proof (induction n rule: decimal.induct)
  case (1 n)
  show ?case
  proof (cases "n < 10")
    case True
    then have d: "decimal n = [digitChar n]" by (subst decimal.simps) simp
    show ?thesis
      using digitChar_digit [OF True] unfolding d by (simp add: digitsVal_def)
  next
    case False
    then have d: "decimal n = decimal (n div 10) @ [digitChar (n mod 10)]" by (subst decimal.simps) simp
    have m: "n mod 10 < 10" by simp
    have ih: "decimal (n div 10) \<noteq> [] \<and> list_all isDigit (decimal (n div 10)) \<and> digitsVal (decimal (n div 10)) = n div 10"
      using 1 False by simp
    show ?thesis
      using ih digitChar_digit [OF m] unfolding d by (simp add: digitsVal_snoc)
  qed
qed

lemma decimal_inj:
  assumes "decimal m = decimal n"
  shows "m = n"
proof -
  have "m = digitsVal (decimal m)" using decimal_digits [of m] by simp
  also have "\<dots> = digitsVal (decimal n)" using assms by simp
  also have "\<dots> = n" using decimal_digits [of n] by simp
  finally show ?thesis .
qed

lemma firstDigits_empty: "(firstDigits s = []) = (\<forall>c \<in> set s. \<not> isDigit c)"
proof (induction s)
  case Nil
  show ?case by (simp add: firstDigits_def)
next
  case (Cons c s)
  then show ?case by (auto simp: firstDigits_def)
qed

lemma sectorNumber_cases:
  "(\<exists>m. firstDigits (nombre g) \<noteq> [] \<and> sectorNumber (nombre g) = Fin (real m) \<and> sectorLabel g = CHR ''S'' # decimal m)
   \<or> (firstDigits (nombre g) = [] \<and> sectorNumber (nombre g) = PosInf
       \<and> sectorLabel g = (if nombre g \<noteq> [] then nombre g else ''Sector''))"
  by (auto simp: sectorNumber_def sectorLabel_def)

lemma sectorNumber_notNaN: "\<not> js_isNaN (sectorNumber s)"
  by (simp add: sectorNumber_def)

lemma no_digit_Sector: "\<forall>c \<in> set ''Sector''. \<not> isDigit c"
  by (simp add: isDigit_def)

lemma label_determines_number:
  assumes "sectorLabel g = sectorLabel g'"
  shows "sectorNumber (nombre g) = sectorNumber (nombre g')"
proof -
  have digit_in: "\<exists>c \<in> set (CHR ''S'' # decimal m). isDigit c" for m
    using decimal_digits [of m] by (cases "decimal m") auto
  have none: "\<forall>c \<in> set (if nombre x \<noteq> [] then nombre x else ''Sector''). \<not> isDigit c"
    if "firstDigits (nombre x) = []" for x :: geofence
    using that no_digit_Sector by (simp add: firstDigits_empty)
  consider (nn) m m' where "sectorNumber (nombre g) = Fin (real m)" "sectorLabel g = CHR ''S'' # decimal m"
        "sectorNumber (nombre g') = Fin (real m')" "sectorLabel g' = CHR ''S'' # decimal m'"
    | (ni) m where "sectorLabel g = CHR ''S'' # decimal m" "firstDigits (nombre g') = []"
        "sectorLabel g' = (if nombre g' \<noteq> [] then nombre g' else ''Sector'')"
    | (in') m where "sectorLabel g' = CHR ''S'' # decimal m" "firstDigits (nombre g) = []"
        "sectorLabel g = (if nombre g \<noteq> [] then nombre g else ''Sector'')"
    | (ii) "sectorNumber (nombre g) = PosInf" "sectorNumber (nombre g') = PosInf"
    using sectorNumber_cases [of g] sectorNumber_cases [of g'] by blast
  then show ?thesis
  proof cases
    case nn
    then have "decimal m = decimal m'" using assms by simp
    then show ?thesis using nn decimal_inj by simp
  next
    case ni
    from digit_in [of m] obtain c where "c \<in> set (sectorLabel g)" "isDigit c" using ni(1) by auto
    moreover have "\<forall>c \<in> set (sectorLabel g'). \<not> isDigit c" using none [OF ni(2)] ni(3) by simp
    ultimately have False using assms by simp
    then show ?thesis ..
  next
    case in'
    from digit_in [of m] obtain c where "c \<in> set (sectorLabel g')" "isDigit c" using in'(1) by auto
    moreover have "\<forall>c \<in> set (sectorLabel g). \<not> isDigit c" using none [OF in'(2)] in'(3) by simp
    ultimately have False using assms by simp
    then show ?thesis ..
  next
    case ii
    then show ?thesis by simp
  qed
qed

subsection \<open>Count maps\<close>

lemma keys_mapSet: "map fst (mapSet k v m) = (if k \<in> set (map fst m) then map fst m else map fst m @ [k])"
proof (induction m)
  case Nil
  show ?case by simp
next
  case (Cons a m)
  obtain k' v' where a: "a = (k', v')" by (cases a)
  show ?case using Cons a by (cases "k' = k") simp_all
qed

lemma distinct_mapSet: "distinct (map fst m) \<Longrightarrow> distinct (map fst (mapSet k v m))"
  by (simp add: keys_mapSet)

lemma fst_mapSet: "fst ` set (mapSet k v m) = insert k (fst ` set m)"
proof -
  have "set (map fst (mapSet k v m)) = insert k (set (map fst m))"
    by (simp add: keys_mapSet insert_absorb)
  then show ?thesis by simp
qed

lemma countMapOk_mapSet:
  assumes "countMapOk m" and "label e = k" and "sectorLabel g = k" and "num e = sectorNumber (nombre g)"
  shows "countMapOk (mapSet k e m)"
proof -
  have "list_all (\<lambda>ke. label (snd ke) = fst ke
                      \<and> (\<exists>g. sectorLabel g = fst ke \<and> num (snd ke) = sectorNumber (nombre g))) (mapSet k e m)"
    unfolding list_all_iff
  proof
    fix ke assume "ke \<in> set (mapSet k e m)"
    then have "(fst ke = k \<and> snd ke = e) \<or> ke \<in> set m"
      using mapSet_member [of "fst ke" "snd ke" k e m] by simp
    then show "label (snd ke) = fst ke
                 \<and> (\<exists>g. sectorLabel g = fst ke \<and> num (snd ke) = sectorNumber (nombre g))"
      using assms by (auto simp: countMapOk_def list_all_iff)
  qed
  then show ?thesis using assms(1) by (simp add: countMapOk_def distinct_mapSet)
qed

lemma countMapOk_member:
  assumes "countMapOk m" and "(k, e) \<in> set m"
  shows "label e = k \<and> (\<exists>g. sectorLabel g = k \<and> num e = sectorNumber (nombre g))"
proof -
  have "\<forall>ke \<in> set m. label (snd ke) = fst ke
           \<and> (\<exists>g. sectorLabel g = fst ke \<and> num (snd ke) = sectorNumber (nombre g))"
    using assms(1) by (simp add: countMapOk_def list_all_iff)
  from bspec [OF this assms(2)] show ?thesis by simp
qed

lemma countMapOk_entry:
  "countMapOk m \<Longrightarrow> map_of m k = Some e \<Longrightarrow>
     label e = k \<and> (\<exists>g. sectorLabel g = k \<and> num e = sectorNumber (nombre g))"
  by (rule countMapOk_member) (auto dest: map_of_SomeD)

lemma countMapOk_bump: "countMapOk m \<Longrightarrow> countMapOk (bump g m)"
proof (cases "map_of m (sectorLabel g)")
  case None
  assume "countMapOk m"
  then show ?thesis using None
    by (simp add: bump_def) (rule countMapOk_mapSet [of m _ _ g], simp_all add: newEntry_def)
next
  case (Some e)
  assume ok: "countMapOk m"
  from countMapOk_entry [OF ok Some] obtain g' where
    "label e = sectorLabel g" "sectorLabel g' = sectorLabel g" "num e = sectorNumber (nombre g')" by blast
  then show ?thesis using Some ok
    by (simp add: bump_def) (rule countMapOk_mapSet [of m _ _ g'], simp_all)
qed

lemma countOf_bump: "countOf (bump g m) lab = countOf m lab + (if sectorLabel g = lab then 1 else 0)"
  by (cases "map_of m (sectorLabel g)") (auto simp: bump_def countOf_def map_of_mapSet newEntry_def)

lemma keys_bump: "fst ` set (bump g m) = insert (sectorLabel g) (fst ` set m)"
  by (cases "map_of m (sectorLabel g)") (simp_all add: bump_def fst_mapSet)

lemma countLoop_result:
  assumes "list_all (\<lambda>ki. coords (snd ki) \<noteq> None) es"
  shows "\<exists>m' qs'. countLoop st m es qs = Inr (m', qs')
          \<and> (countMapOk m \<longrightarrow> countMapOk m')
          \<and> fst ` set m \<subseteq> fst ` set m'
          \<and> (\<forall>lab. countOf m' lab = countOf m lab + length (filter (\<lambda>ki. locatedIn st lab (snd ki)) es))"
  using assms
proof (induction es arbitrary: m qs)
  case Nil
  then show ?case by simp
next
  case (Cons ki es)
  obtain k i where ki: "ki = (k, i)" by (cases ki)
  obtain lat lng where c: "coords i = Some (lat, lng)" using Cons.prems ki by auto
  have rest: "list_all (\<lambda>ki. coords (snd ki) \<noteq> None) es" using Cons.prems by simp
  show ?case
  proof (cases "sectorOfPoint st lat lng")
    case None
    then have "\<And>lab. \<not> locatedIn st lab i" using c by (simp add: locatedIn_def)
    then show ?thesis
      using Cons.IH [OF rest, of m "qs @ [(lat, lng)]"] ki c None by simp
  next
    case (Some kg)
    obtain k' g where kg: "kg = (k', g)" by (cases kg)
    have loc: "\<And>lab. locatedIn st lab i = (sectorLabel g = lab)"
      using c Some kg by (simp add: locatedIn_def)
    from Cons.IH [OF rest, of "bump g m" "qs @ [(lat, lng)]"]
    obtain m' qs' where r: "countLoop st (bump g m) es (qs @ [(lat, lng)]) = Inr (m', qs')"
      "countMapOk (bump g m) \<longrightarrow> countMapOk m'" "fst ` set (bump g m) \<subseteq> fst ` set m'"
      "\<forall>lab. countOf m' lab = countOf (bump g m) lab + length (filter (\<lambda>ki. locatedIn st lab (snd ki)) es)"
      by blast
    have "countLoop st m (ki # es) qs = Inr (m', qs')" using r(1) ki c Some kg by simp
    moreover have "countMapOk m \<longrightarrow> countMapOk m'" using r(2) countMapOk_bump by blast
    moreover have "fst ` set m \<subseteq> fst ` set m'" using r(3) keys_bump [of g m] by blast
    moreover have "\<forall>lab. countOf m' lab = countOf m lab + length (filter (\<lambda>ki. locatedIn st lab (snd ki)) (ki # es))"
      using r(4) ki loc by (simp add: countOf_bump)
    ultimately show ?thesis by blast
  qed
qed

lemma countMapOk_Nil: "countMapOk []"
  by (simp add: countMapOk_def)

lemma foldl_base_ok:
  "countMapOk m \<Longrightarrow> countMapOk (foldl (\<lambda>m g. mapSet (sectorLabel g) (baseEntry g) m) m gs)"
proof (induction gs arbitrary: m)
  case Nil
  then show ?case by simp
next
  case (Cons g gs)
  have "countMapOk (mapSet (sectorLabel g) (baseEntry g) m)"
    by (rule countMapOk_mapSet [OF Cons.prems, of _ _ g]) (simp_all add: baseEntry_def)
  then show ?case using Cons.IH by simp
qed

lemma foldl_base_keys:
  "fst ` set (foldl (\<lambda>m g. mapSet (sectorLabel g) (baseEntry g) m) m gs) = fst ` set m \<union> sectorLabel ` set gs"
  by (induction gs arbitrary: m) (simp_all add: fst_mapSet)

lemma base_ok: "countMapOk (baseSectorCountMap st)"
  unfolding baseSectorCountMap_def by (rule foldl_base_ok [OF countMapOk_Nil])

lemma base_keys: "fst ` set (baseSectorCountMap st) = sectorLabel ` snd ` set (geofenceById st)"
  unfolding baseSectorCountMap_def by (simp add: foldl_base_keys jsSort_set)

lemma base_countOf: "countOf (baseSectorCountMap st) lab = 0"
proof (cases "map_of (baseSectorCountMap st) lab")
  case None
  then show ?thesis by (simp add: countOf_def)
next
  case (Some e)
  then have "(lab, e) \<in> set (baseSectorCountMap st)" by (rule map_of_SomeD)
  then have "e \<in> snd ` set (baseSectorCountMap st)" by force
  then show ?thesis using Some base_count_zero by (simp add: countOf_def)
qed

lemma no_layers_not_located: "geofenceLayers st = [] \<Longrightarrow> \<not> locatedIn st lab i"
  by (simp add: locatedIn_def sectorOfPoint_def split: option.splits)

lemma update_result:
  assumes "list_all (\<lambda>ki. coords (snd ki) \<noteq> None) latest"
  shows "\<exists>m qs. updateSectorCountsFrom st latest = Inr (renderSectorLegend m, qs)
          \<and> countMapOk m
          \<and> sectorLabel ` snd ` set (geofenceById st) \<subseteq> fst ` set m
          \<and> (\<forall>lab. countOf m lab = length (filter (\<lambda>ki. locatedIn st lab (snd ki)) latest))"
proof (cases "geofenceLayers st = []")
  case True
  then have "updateSectorCountsFrom st latest = Inr (renderSectorLegend (baseSectorCountMap st), [])"
    by (simp add: updateSectorCountsFrom_def)
  moreover have "\<forall>lab. countOf (baseSectorCountMap st) lab = length (filter (\<lambda>ki. locatedIn st lab (snd ki)) latest)"
    using no_layers_not_located [OF True] by (simp add: base_countOf)
  ultimately show ?thesis using base_ok [of st] base_keys [of st] by blast
next
  case False
  from countLoop_result [OF assms, of st "baseSectorCountMap st" "[]"]
  obtain m qs where r: "countLoop st (baseSectorCountMap st) latest [] = Inr (m, qs)"
    "countMapOk (baseSectorCountMap st) \<longrightarrow> countMapOk m"
    "fst ` set (baseSectorCountMap st) \<subseteq> fst ` set m"
    "\<forall>lab. countOf m lab = countOf (baseSectorCountMap st) lab + length (filter (\<lambda>ki. locatedIn st lab (snd ki)) latest)"
    by blast
  have "updateSectorCountsFrom st latest = Inr (renderSectorLegend m, qs)"
    using False r(1) by (simp add: updateSectorCountsFrom_def)
  moreover have "countMapOk m" using r(2) base_ok by blast
  moreover have "sectorLabel ` snd ` set (geofenceById st) \<subseteq> fst ` set m" using r(3) base_keys by blast
  moreover have "\<forall>lab. countOf m lab = length (filter (\<lambda>ki. locatedIn st lab (snd ki)) latest)"
    using r(4) by (simp add: base_countOf)
  ultimately show ?thesis by blast
qed

lemma labels_of_countMap: "countMapOk m \<Longrightarrow> map label (map snd m) = map fst m"
  by (simp add: countMapOk_def list_all_iff)

lemma chips_of_countMap:
  assumes "countMapOk m"
  shows "sorted_wrt (\<lambda>a b. \<not> js_lt (num b) (num a)) (renderSectorLegend m)"
    and "list_all (\<lambda>e. \<exists>g. label e = sectorLabel g \<and> num e = sectorNumber (nombre g)) (renderSectorLegend m)"
    and "distinct (map label (renderSectorLegend m))"
proof -
  have each: "\<exists>g. label e = sectorLabel g \<and> num e = sectorNumber (nombre g)" if "e \<in> set (map snd m)" for e
  proof -
    from that obtain k where "(k, e) \<in> set m" by auto
    from countMapOk_member [OF assms this] obtain g where "label e = k" "sectorLabel g = k"
      "num e = sectorNumber (nombre g)" by blast
    then have "label e = sectorLabel g \<and> num e = sectorNumber (nombre g)" by simp
    then show ?thesis ..
  qed
  then have "\<forall>e \<in> set (map snd m). \<not> js_isNaN (num e)" using sectorNumber_notNaN by metis
  then show "sorted_wrt (\<lambda>a b. \<not> js_lt (num b) (num a)) (renderSectorLegend m)"
    unfolding renderSectorLegend_def by (rule sorted_jsSort)
  show "list_all (\<lambda>e. \<exists>g. label e = sectorLabel g \<and> num e = sectorNumber (nombre g)) (renderSectorLegend m)"
    using each by (simp add: list_all_iff renderSectorLegend_def jsSort_set)
  have "distinct (map fst m)" using assms by (simp add: countMapOk_def)
  then show "distinct (map label (renderSectorLegend m))"
    by (simp only: renderSectorLegend_def distinct_jsSort labels_of_countMap [OF assms])
qed

lemma chip_of_label:
  assumes "countMapOk m" and "sectorLabel g \<in> fst ` set m"
  shows "\<exists>e \<in> set (renderSectorLegend m). label e = sectorLabel g \<and> num e = sectorNumber (nombre g)
            \<and> count e = countOf m (sectorLabel g)"
proof -
  from assms(2) obtain e where in_m: "(sectorLabel g, e) \<in> set m" by auto
  have "distinct (map fst m)" using assms(1) by (simp add: countMapOk_def)
  then have mo: "map_of m (sectorLabel g) = Some e" using in_m by simp
  from countMapOk_member [OF assms(1) in_m] obtain g' where
    l: "label e = sectorLabel g" and g': "sectorLabel g' = sectorLabel g" "num e = sectorNumber (nombre g')"
    by blast
  have "num e = sectorNumber (nombre g)" using label_determines_number [OF g'(1)] g'(2) by simp
  moreover have "e \<in> set (renderSectorLegend m)"
    using in_m by (force simp: renderSectorLegend_def jsSort_set)
  ultimately show ?thesis using l mo by (auto simp: countOf_def)
qed

lemma filter_unique:
  "distinct (map f xs) \<Longrightarrow> x \<in> set xs \<Longrightarrow> filter (\<lambda>y. f y = f x) xs = [x]"
proof (induction xs)
  case Nil
  then show ?case by simp
next
  case (Cons a xs)
  show ?case
  proof (cases "a = x")
    case True
    have "f x \<notin> f ` set xs" using Cons.prems(1) True by simp
    then have "\<forall>y \<in> set xs. f y \<noteq> f x" by (metis imageI)
    then have "filter (\<lambda>y. f y = f x) xs = []"
      by (simp add: filter_empty_conv)
    then show ?thesis using True by simp
  next
    case False
    then have "x \<in> set xs" using Cons.prems(2) by simp
    then have "f a \<noteq> f x" using Cons.prems(1) by auto
    then show ?thesis using Cons \<open>x \<in> set xs\<close> by simp
  qed
qed

text \<open>
  C3. Let two geofences recorded under different ids have the same sector label, and
  let every entry of the latest map have coordinates. Then the chips rendered contain
  exactly one entry with that label, and its count is the number of entries of the
  latest map that \<open>sectorOfPoint\<close> locates in a geofence with that label, whichever
  of the geofences it is: the counts are kept by label, not by id.
\<close>

theorem same_label_counts_merge:
  assumes "(k1, g1) \<in> set (geofenceById st)" and "(k2, g2) \<in> set (geofenceById st)" and "k1 \<noteq> k2"
    and "sectorLabel g1 = sectorLabel g2"
    and "list_all (\<lambda>ki. coords (snd ki) \<noteq> None) latest"
  shows "\<exists>chips qs e. updateSectorCountsFrom st latest = Inr (chips, qs)
          \<and> filter (\<lambda>c. label c = sectorLabel g1) chips = [e]
          \<and> count e = length (filter (\<lambda>ki. locatedIn st (sectorLabel g1) (snd ki)) latest)"
proof -
  from update_result [OF assms(5), of st]
  obtain m qs where r: "updateSectorCountsFrom st latest = Inr (renderSectorLegend m, qs)" "countMapOk m"
    "sectorLabel ` snd ` set (geofenceById st) \<subseteq> fst ` set m"
    "\<forall>lab. countOf m lab = length (filter (\<lambda>ki. locatedIn st lab (snd ki)) latest)"
    by blast
  have "sectorLabel g1 \<in> fst ` set m" using r(3) assms(1) by force
  from chip_of_label [OF r(2) this]
  obtain e where e: "e \<in> set (renderSectorLegend m)" "label e = sectorLabel g1"
    "count e = countOf m (sectorLabel g1)" by blast
  have "filter (\<lambda>c. label c = label e) (renderSectorLegend m) = [e]"
    using chips_of_countMap(3) [OF r(2)] e(1) by (rule filter_unique)
  then show ?thesis using r(1,4) e(2,3) by auto
qed

lemma name_sector4: "nombre g = ''Sector 4'' \<Longrightarrow> sectorLabel g = ''S4'' \<and> sectorNumber (nombre g) = Fin 4"
  by (simp add: sectorLabel_def sectorNumber_def scan_defs decimal_small digitChar_def)

lemma decimal_12: "decimal 12 = ''12''"
  by (simp add: decimal.simps [of 12] decimal_small digitChar_def)

lemma name_sector12: "nombre g = ''Sector 12'' \<Longrightarrow> sectorLabel g = ''S12'' \<and> sectorNumber (nombre g) = Fin 12"
  by (simp add: sectorLabel_def sectorNumber_def scan_defs decimal_12)

lemma name_zona: "nombre g = ''Zona Norte'' \<Longrightarrow> sectorLabel g = ''Zona Norte'' \<and> sectorNumber (nombre g) = PosInf"
  by (simp add: sectorLabel_def sectorNumber_def scan_defs)

text \<open>
  C2. Let geofences named "Sector 4", "Sector 12" and "Zona Norte" be recorded, among
  any others and in any order, and let every entry of the latest map have coordinates.
  Then the chips rendered are in ascending order of their numbers, each the number of
  a geofence with the chip's label (infinite when the name has no digits, so that
  such chips come after all numbered ones); no label occurs twice; the chips labelled
  "S4", "S12" and "Zona Norte" occur in this order; and chips with equal numbers keep
  the order they have in the count map.
\<close>

theorem sector_order:
  assumes "(k4, g4) \<in> set (geofenceById st)" and "nombre g4 = ''Sector 4''"
    and "(k12, g12) \<in> set (geofenceById st)" and "nombre g12 = ''Sector 12''"
    and "(kz, gz) \<in> set (geofenceById st)" and "nombre gz = ''Zona Norte''"
    and "list_all (\<lambda>ki. coords (snd ki) \<noteq> None) latest"
  shows "\<exists>chips qs. updateSectorCountsFrom st latest = Inr (chips, qs)
          \<and> sorted_wrt (\<lambda>a b. \<not> js_lt (num b) (num a)) chips
          \<and> list_all (\<lambda>e. \<exists>g. label e = sectorLabel g \<and> num e = sectorNumber (nombre g)) chips
          \<and> distinct (map label chips)
          \<and> (\<exists>i j k. i < j \<and> j < k \<and> k < length chips \<and> label (chips ! i) = ''S4''
                 \<and> label (chips ! j) = ''S12'' \<and> label (chips ! k) = ''Zona Norte'')
          \<and> (\<forall>m n. filter (\<lambda>e. num e = n) (renderSectorLegend m) = filter (\<lambda>e. num e = n) (map snd m))"
proof -
  from update_result [OF assms(7), of st]
  obtain m qs where r: "updateSectorCountsFrom st latest = Inr (renderSectorLegend m, qs)" "countMapOk m"
    "sectorLabel ` snd ` set (geofenceById st) \<subseteq> fst ` set m"
    by blast
  let ?chips = "renderSectorLegend m"
  note srt = chips_of_countMap(1) [OF r(2)]
  note dst = chips_of_countMap(3) [OF r(2)]
  have "sectorLabel g4 \<in> fst ` set m" using r(3) assms(1) by force
  from chip_of_label [OF r(2) this] name_sector4 [OF assms(2)]
  obtain e4 where e4: "e4 \<in> set ?chips" "label e4 = ''S4''" "num e4 = Fin 4" by auto
  have "sectorLabel g12 \<in> fst ` set m" using r(3) assms(3) by force
  from chip_of_label [OF r(2) this] name_sector12 [OF assms(4)]
  obtain e12 where e12: "e12 \<in> set ?chips" "label e12 = ''S12''" "num e12 = Fin 12" by auto
  have "sectorLabel gz \<in> fst ` set m" using r(3) assms(5) by force
  from chip_of_label [OF r(2) this] name_zona [OF assms(6)]
  obtain ez where ez: "ez \<in> set ?chips" "label ez = ''Zona Norte''" "num ez = PosInf" by auto
  from sorted_wrt_positions [OF srt e4(1) e12(1)] e4(3) e12(3)
  obtain i j where ij: "i < j" "j < length ?chips" "?chips ! i = e4" "?chips ! j = e12" by auto
  from sorted_wrt_positions [OF srt e12(1) ez(1)] e12(3) ez(3)
  obtain j' k where jk: "j' < k" "k < length ?chips" "?chips ! j' = e12" "?chips ! k = ez" by auto
  have "distinct ?chips" using dst by (simp add: distinct_map)
  moreover have "j' < length ?chips" using jk by simp
  ultimately have "(?chips ! j' = ?chips ! j) = (j' = j)" using ij(2) by (rule nth_eq_iff_index_eq)
  then have "j' = j" using ij jk by simp
  then have pos: "\<exists>i j k. i < j \<and> j < k \<and> k < length ?chips \<and> label (?chips ! i) = ''S4''
                 \<and> label (?chips ! j) = ''S12'' \<and> label (?chips ! k) = ''Zona Norte''"
    using ij jk e4(2) e12(2) ez(2) by blast
  have stable: "\<forall>m n. filter (\<lambda>e. num e = n) (renderSectorLegend m) = filter (\<lambda>e. num e = n) (map snd m)"
    by (simp add: renderSectorLegend_def filter_jsSort)
  show ?thesis
    using r(1) srt chips_of_countMap(2) [OF r(2)] dst pos stable by blast
qed

subsection \<open>The examples of the specification\<close>

lemma drawAll_threeSectors: "drawAll noGeofences [sector12, sector4, zonaNorte] 0 = Inr threeSectors"
  by code_simp

lemma drawAll_twoSector5: "drawAll noGeofences [sector5a, sector5b] 0 = Inr twoSector5"
  by code_simp

lemma chips_threeSectors:
  "updateSectorCountsFrom threeSectors [(''111'', officerInfo (1/2) (1/2))]
   = Inr ([\<lparr>label = ''S4'', num = Fin 4, chipColor = ''#f59e0b'', chipName = ''Sector 4'', count = 1\<rparr>,
           \<lparr>label = ''S12'', num = Fin 12, chipColor = ''#9ca3af'', chipName = ''Sector 12'', count = 0\<rparr>,
           \<lparr>label = ''Zona Norte'', num = PosInf, chipColor = ''#9ca3af'', chipName = ''Zona Norte'', count = 0\<rparr>],
          [(Fin (1/2), Fin (1/2))])"
  by code_simp

lemma chips_twoSector5:
  "updateSectorCountsFrom twoSector5
     [(''111'', officerInfo (1/2) (1/2)), (''222'', officerInfo (1/2) (5/2)), (''333'', officerInfo 5 5)]
   = Inr ([\<lparr>label = ''S5'', num = Fin 5, chipColor = ''#f59e0b'', chipName = ''Sector 5'', count = 2\<rparr>],
          [(Fin (1/2), Fin (1/2)), (Fin (1/2), Fin (5/2)), (Fin 5, Fin 5)])"
  by code_simp

theorem sector_order_witness:
  "(''g1'', sector4\<lparr>ucolor := ''#f59e0b''\<rparr>) \<in> set (geofenceById threeSectors)
   \<and> nombre (sector4\<lparr>ucolor := ''#f59e0b''\<rparr>) = ''Sector 4''
   \<and> (''g12'', sector12) \<in> set (geofenceById threeSectors) \<and> nombre sector12 = ''Sector 12''
   \<and> (''gz'', zonaNorte) \<in> set (geofenceById threeSectors) \<and> nombre zonaNorte = ''Zona Norte''
   \<and> list_all (\<lambda>ki. coords (snd ki) \<noteq> None) [(''111'', officerInfo (1/2) (1/2))]
   \<and> drawAll noGeofences [sector12, sector4, zonaNorte] 0 = Inr threeSectors
   \<and> (\<exists>chips qs. updateSectorCountsFrom threeSectors [(''111'', officerInfo (1/2) (1/2))] = Inr (chips, qs)
         \<and> map label chips = [''S4'', ''S12'', ''Zona Norte'']
         \<and> map count chips = [1, 0, 0]
         \<and> sorted_wrt (\<lambda>a b. \<not> js_lt (num b) (num a)) chips)"
proof -
  have h: "(''g1'', sector4\<lparr>ucolor := ''#f59e0b''\<rparr>) \<in> set (geofenceById threeSectors)"
    "nombre (sector4\<lparr>ucolor := ''#f59e0b''\<rparr>) = ''Sector 4''"
    "(''g12'', sector12) \<in> set (geofenceById threeSectors)" "nombre sector12 = ''Sector 12''"
    "(''gz'', zonaNorte) \<in> set (geofenceById threeSectors)" "nombre zonaNorte = ''Zona Norte''"
    "list_all (\<lambda>ki. coords (snd ki) \<noteq> None) [(''111'', officerInfo (1/2) (1/2))]"
    by (simp_all add: threeSectors_def sector4_def sector12_def zonaNorte_def officerInfo_def)
  from sector_order [OF h]
  obtain chips qs where c: "updateSectorCountsFrom threeSectors [(''111'', officerInfo (1/2) (1/2))] = Inr (chips, qs)"
    "sorted_wrt (\<lambda>a b. \<not> js_lt (num b) (num a)) chips" by blast
  have "map label chips = [''S4'', ''S12'', ''Zona Norte''] \<and> map count chips = [1, 0, 0]"
    using c(1) by (auto simp: chips_threeSectors)
  then show ?thesis using h c drawAll_threeSectors by (simp del: drawAll.simps)
qed

lemma label_sector5: "sectorLabel (sector5a\<lparr>ucolor := c\<rparr>) = ''S5''" "sectorLabel (sector5b\<lparr>ucolor := c\<rparr>) = ''S5''"
  by (simp_all add: sector5a_def sector5b_def sectorLabel_def sectorNumber_def scan_defs decimal_small digitChar_def)

theorem same_label_counts_merge_witness:
  "(''a'', sector5a\<lparr>ucolor := ''#ef4444''\<rparr>) \<in> set (geofenceById twoSector5)
   \<and> (''b'', sector5b\<lparr>ucolor := ''#f59e0b''\<rparr>) \<in> set (geofenceById twoSector5)
   \<and> ''a'' \<noteq> ''b''
   \<and> sectorLabel (sector5a\<lparr>ucolor := ''#ef4444''\<rparr>) = ''S5''
   \<and> sectorLabel (sector5b\<lparr>ucolor := ''#f59e0b''\<rparr>) = ''S5''
   \<and> list_all (\<lambda>ki. coords (snd ki) \<noteq> None)
        [(''111'', officerInfo (1/2) (1/2)), (''222'', officerInfo (1/2) (5/2)), (''333'', officerInfo 5 5)]
   \<and> drawAll noGeofences [sector5a, sector5b] 0 = Inr twoSector5
   \<and> sectorOfPoint twoSector5 (Fin (1/2)) (Fin (1/2)) = Some (''a'', sector5a\<lparr>ucolor := ''#ef4444''\<rparr>)
   \<and> sectorOfPoint twoSector5 (Fin (1/2)) (Fin (5/2)) = Some (''b'', sector5b\<lparr>ucolor := ''#f59e0b''\<rparr>)
   \<and> sectorOfPoint twoSector5 (Fin 5) (Fin 5) = None
   \<and> (\<exists>chips qs e.
         updateSectorCountsFrom twoSector5
           [(''111'', officerInfo (1/2) (1/2)), (''222'', officerInfo (1/2) (5/2)), (''333'', officerInfo 5 5)]
           = Inr (chips, qs)
         \<and> chips = [e] \<and> label e = ''S5'' \<and> count e = 2)"
proof -
  let ?latest = "[(''111'', officerInfo (1/2) (1/2)), (''222'', officerInfo (1/2) (5/2)), (''333'', officerInfo 5 5)]"
  have h: "(''a'', sector5a\<lparr>ucolor := ''#ef4444''\<rparr>) \<in> set (geofenceById twoSector5)"
    "(''b'', sector5b\<lparr>ucolor := ''#f59e0b''\<rparr>) \<in> set (geofenceById twoSector5)"
    "''a'' \<noteq> ''b''"
    "sectorLabel (sector5a\<lparr>ucolor := ''#ef4444''\<rparr>) = sectorLabel (sector5b\<lparr>ucolor := ''#f59e0b''\<rparr>)"
    "list_all (\<lambda>ki. coords (snd ki) \<noteq> None) ?latest"
    by (simp_all add: twoSector5_def label_sector5 officerInfo_def)
  have loc: "sectorOfPoint twoSector5 (Fin (1/2)) (Fin (1/2)) = Some (''a'', sector5a\<lparr>ucolor := ''#ef4444''\<rparr>)"
    "sectorOfPoint twoSector5 (Fin (1/2)) (Fin (5/2)) = Some (''b'', sector5b\<lparr>ucolor := ''#f59e0b''\<rparr>)"
    "sectorOfPoint twoSector5 (Fin 5) (Fin 5) = None"
    by code_simp+
  from same_label_counts_merge [OF h]
  obtain chips qs e where c: "updateSectorCountsFrom twoSector5 ?latest = Inr (chips, qs)"
    "filter (\<lambda>c. label c = sectorLabel (sector5a\<lparr>ucolor := ''#ef4444''\<rparr>)) chips = [e]"
    "count e = length (filter (\<lambda>ki. locatedIn twoSector5 (sectorLabel (sector5a\<lparr>ucolor := ''#ef4444''\<rparr>)) (snd ki)) ?latest)"
    by blast
  have n: "count e = 2"
    unfolding c(3) by (simp add: locatedIn_def officerInfo_def loc label_sector5)
  have "chips = [e] \<and> label e = ''S5''"
    using c(1,2) by (auto simp: chips_twoSector5 label_sector5)
  then show ?thesis using h(1,2,3,5) c(1) n loc drawAll_twoSector5 label_sector5
    by (simp del: drawAll.simps)
qed

subsection \<open>Rebuilds complete\<close>

lemma list_all_mapSet:
  assumes "list_all P m" and "P (k, v)"
  shows "list_all P (mapSet k v m)"
  unfolding list_all_iff
proof
  fix ke assume "ke \<in> set (mapSet k v m)"
  then have "(fst ke = k \<and> snd ke = v) \<or> ke \<in> set m"
    using mapSet_member [of "fst ke" "snd ke" k v m] by simp
  then show "P ke" using assms by (cases ke) (auto simp: list_all_iff)
qed

lemma latestStep_coords:
  "list_all (\<lambda>ki. coords (snd ki) \<noteq> None) latest \<Longrightarrow>
   list_all (\<lambda>ki. coords (snd ki) \<noteq> None) (latestStep h ui latest r)"
  by (auto simp: latestStep_def intro!: list_all_mapSet split: option.splits)

lemma latest_coords:
  "list_all (\<lambda>ki. coords (snd ki) \<noteq> None) latest \<Longrightarrow>
   list_all (\<lambda>ki. coords (snd ki) \<noteq> None) (foldl (latestStep h ui) latest rs)"
proof (induction rs arbitrary: latest)
  case Nil
  then show ?case by (simp only: foldl_Nil)
next
  case (Cons r rs)
  have "list_all (\<lambda>ki. coords (snd ki) \<noteq> None) (latestStep h ui latest r)"
    using Cons.prems by (rule latestStep_coords)
  then have "list_all (\<lambda>ki. coords (snd ki) \<noteq> None) (foldl (latestStep h ui) (latestStep h ui latest r) rs)"
    by (rule Cons.IH)
  then show ?case by (simp only: foldl_Cons)
qed

lemma serenosView_total: "\<exists>v. serenosView h ui st docsS = Inr v"
proof -
  have "list_all (\<lambda>ki. coords (snd ki) \<noteq> None) (foldl (latestStep h ui) [] (map snd docsS))"
    by (rule latest_coords) simp
  from update_result [OF this, of st] show ?thesis
    by (auto simp: serenosView_def Let_def)
qed

text \<open>
  C9. Whatever the registered callbacks do, \<open>emit\<close> returns normally, having invoked
  every listener exactly once, in the order of registration: the listeners are the
  distinct functions that were subscribed, and the log of invocations is that very
  list. A callback that throws changes nothing but the subscribers' own world. So a
  rebuild of either panel completes with its view, which does not depend on the
  callbacks.
\<close>

theorem emit_invokes_every_listener_once:
  "emit run (subscribed cbs) w = Inr (subscribed cbs, worldAfter run (subscribed cbs) w)
   \<and> distinct (subscribed cbs)
   \<and> set (subscribed cbs) = {f. Some f \<in> set cbs}
   \<and> rebuildAlertas run (subscribed cbs) w mode now r docsA
       = Inr (alertasLoop mode now r docsA \<lparr>capaAlertas = [], visibles = 0\<rparr>,
              subscribed cbs, worldAfter run (subscribed cbs) w)
   \<and> (\<exists>v. serenosView h ui st docsS = Inr v
          \<and> rebuildSerenos run (subscribed cbs) w h ui st docsS
              = Inr (v, subscribed cbs, worldAfter run (subscribed cbs) w))"
proof -
  obtain v where v: "serenosView h ui st docsS = Inr v" using serenosView_total by blast
  then have "rebuildSerenos run (subscribed cbs) w h ui st docsS
              = Inr (v, subscribed cbs, worldAfter run (subscribed cbs) w)"
    by (simp add: rebuildSerenos_def emit_total)
  then show ?thesis
    using v subscribed_aux [of "[]" cbs]
    by (simp add: emit_total rebuildAlertas_def subscribed_def)
qed

end
